theory Spec2Isabelle
  imports Complex_Main "HOL-Library.Sublist"
begin

section \<open>The Task model (models/Task.js)\<close>

text \<open>
  A \<open>DATE\<close> column holds an instant, kept as milliseconds since the epoch (what
  \<open>getTime()\<close> reads). A JavaScript string is a \<open>string\<close> of its code units, each below
  256 (\<open>CHR 0xA0\<close> is U+00A0); \<open>length\<close> counts them.
  A nullable column is an \<open>option\<close>, \<open>None\<close> being SQL \<open>NULL\<close>. The two \<open>DECIMAL\<close>
  columns hold exact rationals.
\<close>

record task =
  task_id :: nat
  title :: string
  description :: "string option"
  priority :: string
  status :: string
  assignee :: "string option"
  due_date :: "int option"
  started_at :: "int option"
  completed_at :: "int option"
  tags :: "string option"
  estimated_hours :: "rat option"
  actual_hours :: "rat option"
  project_id :: "string option"
  project_name :: "string option"
  created_at :: int
  updated_at :: int

subsection \<open>The \<open>beforeUpdate\<close> hook\<close>

text \<open>
  The hook receives the instance after the new values were set; \<open>previousStatus\<close> is
  \<open>task._previousDataValues.status\<close>, the status the row was loaded with. Its four
  \<open>if\<close> statements run one after the other on the mutated instance. \<open>now\<close> is what
  \<open>new Date()\<close> returns. \<open>!task.started_at\<close> holds exactly when the column is null, a
  \<open>Date\<close> object being truthy.
\<close>

definition beforeUpdate :: "string \<Rightarrow> int \<Rightarrow> task \<Rightarrow> task" where
  "beforeUpdate previousStatus now task0 =
     (let currentStatus = status task0;
          task1 = (if currentStatus = ''in_progress'' \<and> previousStatus \<noteq> ''in_progress''
                      \<and> started_at task0 = None
                   then task0\<lparr>started_at := Some now\<rparr> else task0);
          task2 = (if currentStatus = ''approved'' \<and> previousStatus \<noteq> ''approved''
                   then task1\<lparr>completed_at := Some now\<rparr> else task1);
          task3 = (if previousStatus = ''approved'' \<and> currentStatus \<noteq> ''approved''
                   then task2\<lparr>completed_at := None\<rparr> else task2);
          task4 = (if previousStatus = ''in_progress'' \<and> currentStatus = ''todo''
                   then task3\<lparr>started_at := None\<rparr> else task3)
      in task4)"

subsection \<open>Instance methods\<close>

text \<open>
  \<open>Math.round\<close> rounds to the nearest integer, a tie going up. The quotient is taken in
  exact rational arithmetic. \<open>getDuration\<close> yields the number it returns, \<open>None\<close> being
  JavaScript's \<open>null\<close>.
\<close>

definition Math_round :: "rat \<Rightarrow> int" where
  "Math_round x = \<lfloor>x + 1 / 2\<rfloor>"

definition getDuration :: "task \<Rightarrow> rat option" where
  "getDuration t =
     (case (started_at t, completed_at t) of
        (Some s, Some c) \<Rightarrow>
          Some (of_int (Math_round (of_int (c - s) / (1000 * 60 * 60 * 24 * 100))) / 100)
      | _ \<Rightarrow> None)"

section \<open>JavaScript values of a request\<close>

text \<open>
  A property of a JavaScript object is absent (\<open>undefined\<close>), \<open>null\<close>, or a value. One
  record type serves for \<open>req.body\<close> and for the objects the handlers pass to
  \<open>Task.create\<close> and \<open>task.update\<close>. Text properties carry strings, the hour properties
  numbers, and the date properties numbers of milliseconds.
\<close>

datatype 'a field = Undefined | Null | Val 'a

record props =
  p_id :: "nat field"
  p_title :: "string field"
  p_description :: "string field"
  p_priority :: "string field"
  p_status :: "string field"
  p_assignee :: "string field"
  p_due_date :: "int field"
  p_started_at :: "int field"
  p_completed_at :: "int field"
  p_tags :: "string field"
  p_estimated_hours :: "rat field"
  p_actual_hours :: "rat field"
  p_project_id :: "string field"
  p_project_name :: "string field"

definition emptyObject :: props where
  "emptyObject =
     \<lparr>p_id = Undefined, p_title = Undefined, p_description = Undefined, p_priority = Undefined,
      p_status = Undefined, p_assignee = Undefined, p_due_date = Undefined,
      p_started_at = Undefined, p_completed_at = Undefined, p_tags = Undefined,
      p_estimated_hours = Undefined, p_actual_hours = Undefined, p_project_id = Undefined,
      p_project_name = Undefined\<rparr>"

text \<open>Truthiness: \<open>undefined\<close>, \<open>null\<close>, the empty string and the number 0 are falsy.\<close>

fun truthyString :: "string field \<Rightarrow> bool" where
  "truthyString (Val s) = (s \<noteq> [])"
| "truthyString _ = False"

fun truthyNumber :: "'a::zero field \<Rightarrow> bool" where
  "truthyNumber (Val n) = (n \<noteq> 0)"
| "truthyNumber _ = False"

text \<open>
  \<open>String.prototype.trim\<close> removes white space and line terminators from both ends. Of
  the code units below 256 these are TAB, LF, VT, FF, CR, the space and the no-break
  space U+00A0; the regular expression class \<open>\s\<close> of the \<open>notEmpty\<close> validator holds the
  same ones.
\<close>

definition isWhiteSpace :: "char \<Rightarrow> bool" where
  "isWhiteSpace c =
     (c \<in> set [CHR 0x09, CHR 0x0A, CHR 0x0B, CHR 0x0C, CHR 0x0D, CHR '' '', CHR 0xA0])"

definition trim :: "string \<Rightarrow> string" where
  "trim s = rev (dropWhile isWhiteSpace (rev (dropWhile isWhiteSpace s)))"

text \<open>A destructuring default \<open>x = d\<close> replaces \<open>undefined\<close> only.\<close>

fun withDefault :: "'a \<Rightarrow> 'a field \<Rightarrow> 'a field" where
  "withDefault d Undefined = Val d"
| "withDefault d f = f"

text \<open>\<open>x ? x.trim() : null\<close>, \<open>x ? new Date(x) : null\<close> and \<open>x ? parseFloat(x) : null\<close>.\<close>

definition trimOrNull :: "string field \<Rightarrow> string field" where
  "trimOrNull x = (case x of Val s \<Rightarrow> if truthyString x then Val (trim s) else Null | _ \<Rightarrow> Null)"

definition numberOrNull :: "'a::zero field \<Rightarrow> 'a field" where
  "numberOrNull x = (case x of Val n \<Rightarrow> if truthyNumber x then Val n else Null | _ \<Rightarrow> Null)"

text \<open>\<open>if (x !== undefined) updateData.x = e\<close>.\<close>

definition whenDefined :: "'a field \<Rightarrow> 'b field \<Rightarrow> 'b field" where
  "whenDefined x e = (if x \<noteq> Undefined then e else Undefined)"

definition validPriorities :: "string list" where
  "validPriorities = [''low'', ''medium'', ''high'']"

definition validStatuses :: "string list" where
  "validStatuses =
     [''todo'', ''in_progress'', ''pending_review'', ''approved'', ''rejected_revision'',
      ''cancelled'']"

fun array_includes :: "string list \<Rightarrow> string field \<Rightarrow> bool" where
  "array_includes xs (Val s) = (s \<in> set xs)"
| "array_includes xs _ = False"

section \<open>The store\<close>

text \<open>
  The table is the list of its rows together with the next key of the \<open>AUTOINCREMENT\<close>
  sequence. The ORM's failures are values: a validation error, and a constraint error
  for a primary key that is already taken.
\<close>

record store =
  rows :: "task list"
  next_id :: nat

datatype dberror = SequelizeValidationError | SequelizeUniqueConstraintError

definition findByPk :: "nat \<Rightarrow> store \<Rightarrow> task option" where
  "findByPk i st = find (\<lambda>r. task_id r = i) (rows st)"

text \<open>
  The validators declared on \<open>title\<close>: \<open>notEmpty\<close> refuses a string of white space only,
  \<open>len: [1, 100]\<close> a length outside that range.
\<close>

definition validateTitle :: "string \<Rightarrow> bool" where
  "validateTitle s = (\<not> list_all isWhiteSpace s \<and> 1 \<le> length s \<and> length s \<le> 100)"

fun column :: "'a field \<Rightarrow> 'a option" where
  "column (Val x) = Some x"
| "column _ = None"

fun assign :: "'a field \<Rightarrow> 'a option \<Rightarrow> 'a option" where
  "assign Undefined old = old"
| "assign Null old = None"
| "assign (Val x) old = Some x"

text \<open>
  \<open>Task.create(values)\<close>: \<open>title\<close>, \<open>priority\<close> and \<open>status\<close> are \<open>allowNull: false\<close>, the last
  two with a default; every other column left out is \<open>NULL\<close>; \<open>created_at\<close> and
  \<open>updated_at\<close> are set by the ORM; the key comes from the sequence unless one is given.
  The \<open>beforeCreate\<close> hook only writes a log line.
\<close>

definition build :: "int \<Rightarrow> nat \<Rightarrow> string \<Rightarrow> string \<Rightarrow> string \<Rightarrow> props \<Rightarrow> task" where
  "build now i ttl prio stat v =
     \<lparr>task_id = i, title = ttl, description = column (p_description v),
      priority = prio, status = stat, assignee = column (p_assignee v),
      due_date = column (p_due_date v), started_at = column (p_started_at v),
      completed_at = column (p_completed_at v), tags = column (p_tags v),
      estimated_hours = column (p_estimated_hours v),
      actual_hours = column (p_actual_hours v),
      project_id = column (p_project_id v),
      project_name = column (p_project_name v),
      created_at = now, updated_at = now\<rparr>"

definition insertRow :: "task \<Rightarrow> store \<Rightarrow> store" where
  "insertRow t st = \<lparr>rows = rows st @ [t], next_id = max (next_id st) (Suc (task_id t))\<rparr>"

definition Task_create :: "int \<Rightarrow> props \<Rightarrow> store \<Rightarrow> dberror + task \<times> store" where
  "Task_create now v st =
     (case (p_title v, withDefault ''medium'' (p_priority v), withDefault ''todo'' (p_status v)) of
        (Val ttl, Val prio, Val stat) \<Rightarrow>
          if \<not> validateTitle ttl then Inl SequelizeValidationError
          else
            (case p_id v of
               Val k \<Rightarrow>
                 if findByPk k st \<noteq> None then Inl SequelizeUniqueConstraintError
                 else (let t = build now k ttl prio stat v in Inr (t, insertRow t st))
             | _ \<Rightarrow> (let t = build now (next_id st) ttl prio stat v in Inr (t, insertRow t st)))
      | _ \<Rightarrow> Inl SequelizeValidationError)"

text \<open>
  \<open>task.update(values)\<close> on a loaded instance: the values present are set (the primary
  key is never changed), the validators of the changed \<open>title\<close> run, then the
  \<open>beforeUpdate\<close> hook with the status the instance was loaded with, and the row is
  written with a fresh \<open>updated_at\<close>.
\<close>

definition setValues :: "props \<Rightarrow> task \<Rightarrow> task" where
  "setValues v t =
     t\<lparr>title := (case p_title v of Val s \<Rightarrow> s | _ \<Rightarrow> title t),
       description := assign (p_description v) (description t),
       priority := (case p_priority v of Val s \<Rightarrow> s | _ \<Rightarrow> priority t),
       status := (case p_status v of Val s \<Rightarrow> s | _ \<Rightarrow> status t),
       assignee := assign (p_assignee v) (assignee t),
       due_date := assign (p_due_date v) (due_date t),
       started_at := assign (p_started_at v) (started_at t),
       completed_at := assign (p_completed_at v) (completed_at t),
       tags := assign (p_tags v) (tags t),
       estimated_hours := assign (p_estimated_hours v) (estimated_hours t),
       actual_hours := assign (p_actual_hours v) (actual_hours t),
       project_id := assign (p_project_id v) (project_id t),
       project_name := assign (p_project_name v) (project_name t)\<rparr>"

definition writeRow :: "task \<Rightarrow> store \<Rightarrow> store" where
  "writeRow t st = st\<lparr>rows := map (\<lambda>r. if task_id r = task_id t then t else r) (rows st)\<rparr>"

definition task_update :: "int \<Rightarrow> props \<Rightarrow> task \<Rightarrow> store \<Rightarrow> dberror + task \<times> store" where
  "task_update now v t st =
     (if p_title v = Null \<or> p_priority v = Null \<or> p_status v = Null
      then Inl SequelizeValidationError
      else if (case p_title v of Val s \<Rightarrow> \<not> validateTitle s | _ \<Rightarrow> False)
      then Inl SequelizeValidationError
      else
        (let t' = (beforeUpdate (status t) now (setValues v t))\<lparr>updated_at := now\<rparr>
         in Inr (t', writeRow t' st)))"

text \<open>\<open>task.reload()\<close> reads the row of the instance again.\<close>

definition reload :: "task \<Rightarrow> store \<Rightarrow> task option" where
  "reload t st = findByPk (task_id t) st"

section \<open>The request handlers (routes/tasks.js)\<close>

text \<open>
  A handler returns the HTTP status with its body, and the store it leaves. The message
  of an error body is named by a constructor.
\<close>

datatype error =
    TitleEmpty | TitleTooLong | InvalidPriority | InvalidStatus | StatusEmpty
  | TaskNotFound | ValidationFailed | ServerError

datatype 'a response = Response (code: nat) (body: "error + 'a")

text \<open>The \<open>catch\<close> block of the create and update handlers.\<close>

fun catchError :: "dberror \<Rightarrow> 'a response" where
  "catchError SequelizeValidationError = Response 400 (Inl ValidationFailed)"
| "catchError SequelizeUniqueConstraintError = Response 500 (Inl ServerError)"

subsection \<open>\<open>POST /api/tasks\<close>\<close>

definition taskData :: "props \<Rightarrow> props" where
  "taskData req =
     emptyObject
       \<lparr>p_title := (case p_title req of Val s \<Rightarrow> Val (trim s) | f \<Rightarrow> f),
        p_description := trimOrNull (p_description req),
        p_priority := withDefault ''medium'' (p_priority req),
        p_status := withDefault ''todo'' (p_status req),
        p_assignee := trimOrNull (p_assignee req),
        p_due_date := numberOrNull (p_due_date req),
        p_tags := trimOrNull (p_tags req),
        p_estimated_hours := numberOrNull (p_estimated_hours req),
        p_project_id := trimOrNull (p_project_id req),
        p_project_name := trimOrNull (p_project_name req)\<rparr>"

definition createTask :: "int \<Rightarrow> props \<Rightarrow> store \<Rightarrow> task response \<times> store" where
  "createTask now req st =
     (let title = p_title req;
          priority = withDefault ''medium'' (p_priority req);
          status = withDefault ''todo'' (p_status req)
      in
        if \<not> truthyString title \<or> (case title of Val s \<Rightarrow> length (trim s) = 0 | _ \<Rightarrow> True)
        then (Response 400 (Inl TitleEmpty), st)
        else if (case title of Val s \<Rightarrow> length s > 100 | _ \<Rightarrow> False)
        then (Response 400 (Inl TitleTooLong), st)
        else if \<not> array_includes validPriorities priority
        then (Response 400 (Inl InvalidPriority), st)
        else if \<not> array_includes validStatuses status
        then (Response 400 (Inl InvalidStatus), st)
        else
          (case Task_create now (taskData req) st of
             Inr (task, st') \<Rightarrow> (Response 201 (Inr task), st')
           | Inl e \<Rightarrow> (catchError e, st)))"

subsection \<open>\<open>PUT /api/tasks/:id\<close>\<close>

definition updateData :: "props \<Rightarrow> props" where
  "updateData req =
     emptyObject
       \<lparr>p_title := whenDefined (p_title req) (case p_title req of Val s \<Rightarrow> Val (trim s) | f \<Rightarrow> f),
        p_description := whenDefined (p_description req) (trimOrNull (p_description req)),
        p_priority := whenDefined (p_priority req) (p_priority req),
        p_status := whenDefined (p_status req) (p_status req),
        p_assignee := whenDefined (p_assignee req) (trimOrNull (p_assignee req)),
        p_due_date := whenDefined (p_due_date req) (numberOrNull (p_due_date req)),
        p_tags := whenDefined (p_tags req) (trimOrNull (p_tags req)),
        p_estimated_hours :=
          whenDefined (p_estimated_hours req) (numberOrNull (p_estimated_hours req)),
        p_actual_hours := whenDefined (p_actual_hours req) (numberOrNull (p_actual_hours req)),
        p_project_id := whenDefined (p_project_id req) (trimOrNull (p_project_id req)),
        p_project_name := whenDefined (p_project_name req) (trimOrNull (p_project_name req))\<rparr>"

definition updateTask :: "int \<Rightarrow> nat \<Rightarrow> props \<Rightarrow> store \<Rightarrow> task response \<times> store" where
  "updateTask now i req st =
     (let title = p_title req; priority = p_priority req; status = p_status req
      in
        case findByPk i st of
          None \<Rightarrow> (Response 404 (Inl TaskNotFound), st)
        | Some task \<Rightarrow>
            if title \<noteq> Undefined \<and>
               (\<not> truthyString title \<or> (case title of Val s \<Rightarrow> length (trim s) = 0 | _ \<Rightarrow> True))
            then (Response 400 (Inl TitleEmpty), st)
            else if title \<noteq> Undefined \<and> (case title of Val s \<Rightarrow> length s > 100 | _ \<Rightarrow> False)
            then (Response 400 (Inl TitleTooLong), st)
            else if priority \<noteq> Undefined \<and> \<not> array_includes validPriorities priority
            then (Response 400 (Inl InvalidPriority), st)
            else if status \<noteq> Undefined \<and> \<not> array_includes validStatuses status
            then (Response 400 (Inl InvalidStatus), st)
            else
              (case task_update now (updateData req) task st of
                 Inl e \<Rightarrow> (catchError e, st)
               | Inr (task', st') \<Rightarrow>
                   (case reload task' st' of
                      Some task'' \<Rightarrow> (Response 200 (Inr task''), st')
                    | None \<Rightarrow> (Response 500 (Inl ServerError), st'))))"

subsection \<open>\<open>PATCH /api/tasks/:id/status\<close>\<close>

text \<open>
  The body of the answer is \<open>{id, status, statusText, started_at, completed_at}\<close> read
  from the reloaded instance; the instance itself stands for it. This handler's \<open>catch\<close>
  block answers 500 for every error.
\<close>

definition patchStatus :: "int \<Rightarrow> nat \<Rightarrow> props \<Rightarrow> store \<Rightarrow> task response \<times> store" where
  "patchStatus now i req st =
     (let status = p_status req
      in
        if \<not> truthyString status then (Response 400 (Inl StatusEmpty), st)
        else if \<not> array_includes validStatuses status
        then (Response 400 (Inl InvalidStatus), st)
        else
          case findByPk i st of
            None \<Rightarrow> (Response 404 (Inl TaskNotFound), st)
          | Some task \<Rightarrow>
              (case task_update now (emptyObject\<lparr>p_status := status\<rparr>) task st of
                 Inl e \<Rightarrow> (Response 500 (Inl ServerError), st)
               | Inr (task', st') \<Rightarrow>
                   (case reload task' st' of
                      Some task'' \<Rightarrow> (Response 200 (Inr task''), st')
                    | None \<Rightarrow> (Response 500 (Inl ServerError), st'))))"

subsection \<open>\<open>GET /api/tasks\<close>\<close>

text \<open>
  A query parameter parsed by \<open>qs\<close> is absent, one string, or an array of strings.
  \<open>page\<close> and \<open>limit\<close> are held as the integers \<open>parseInt\<close> reads from them; when
  absent they default to 1 and 10 (\<open>pageNum\<close> and \<open>limitNum\<close> below).
\<close>

datatype qparam = QAbsent | QSingle string | QMany "string list"

record query =
  q_status :: qparam
  q_priority :: qparam
  q_project_id :: qparam
  q_assignee :: "string option"
  q_search :: "string option"
  q_page :: "int option"
  q_limit :: "int option"
  q_sortBy :: "string option"
  q_sortOrder :: "string option"

fun truthyParam :: "qparam \<Rightarrow> bool" where
  "truthyParam QAbsent = False"
| "truthyParam (QSingle s) = (s \<noteq> [])"
| "truthyParam (QMany xs) = True"

text \<open>\<open>Array.isArray(x) ? x : [x]\<close>\<close>

fun asArray :: "qparam \<Rightarrow> string list" where
  "asArray (QMany xs) = xs"
| "asArray (QSingle s) = [s]"
| "asArray QAbsent = []"

text \<open>
  The \<open>where\<close> object: an \<open>Op.in\<close> list for each of three columns, an \<open>Op.like\<close> pattern
  for \<open>assignee\<close>, and under \<open>Op.or\<close> one \<open>Op.like\<close> pattern for \<open>title\<close>, \<open>description\<close>
  and \<open>tags\<close>. \<open>None\<close> is a key that was not set.
\<close>

record whereClause =
  w_status :: "string list option"
  w_priority :: "string list option"
  w_project_id :: "string list option"
  w_assignee :: "string option"
  w_or :: "string option"

definition buildWhere :: "query \<Rightarrow> whereClause" where
  "buildWhere q =
     \<lparr>w_status = (if truthyParam (q_status q) then Some (asArray (q_status q)) else None),
      w_priority = (if truthyParam (q_priority q) then Some (asArray (q_priority q)) else None),
      w_project_id =
        (if truthyParam (q_project_id q) then Some (asArray (q_project_id q)) else None),
      w_assignee =
        (case q_assignee q of
           Some a \<Rightarrow> if a \<noteq> [] then Some (''%'' @ a @ ''%'') else None
         | None \<Rightarrow> None),
      w_or =
        (case q_search q of
           Some x \<Rightarrow> if x \<noteq> [] then Some (''%'' @ x @ ''%'') else None
         | None \<Rightarrow> None)\<rparr>"

text \<open>
  The store is SQLite (\<open>dialect: 'sqlite'\<close>). Its \<open>LIKE\<close> takes \<open>%\<close> for any run of
  characters and \<open>_\<close> for any one character, compares the other characters without regard
  to ASCII letter case, and is not true of a \<open>NULL\<close> column; so is \<open>IN\<close>.
\<close>

definition lower :: "char \<Rightarrow> char" where
  "lower c = (let n = of_char c :: nat in if 65 \<le> n \<and> n \<le> 90 then char_of (n + 32) else c)"

fun like :: "string \<Rightarrow> string \<Rightarrow> bool" where
  "like [] t = (t = [])"
| "like (p # ps) t =
     (if p = CHR ''%'' then
        like ps t \<or> (case t of [] \<Rightarrow> False | c # cs \<Rightarrow> like (p # ps) cs)
      else
        (case t of
           [] \<Rightarrow> False
         | c # cs \<Rightarrow> (p = CHR ''_'' \<or> lower p = lower c) \<and> like ps cs))"

definition colLike :: "string option \<Rightarrow> string \<Rightarrow> bool" where
  "colLike col pat = (case col of None \<Rightarrow> False | Some t \<Rightarrow> like pat t)"

definition colIn :: "string option \<Rightarrow> string list \<Rightarrow> bool" where
  "colIn col xs = (case col of None \<Rightarrow> False | Some v \<Rightarrow> v \<in> set xs)"

definition matches :: "whereClause \<Rightarrow> task \<Rightarrow> bool" where
  "matches w t =
     ((case w_status w of None \<Rightarrow> True | Some xs \<Rightarrow> colIn (Some (status t)) xs) \<and>
      (case w_priority w of None \<Rightarrow> True | Some xs \<Rightarrow> colIn (Some (priority t)) xs) \<and>
      (case w_project_id w of None \<Rightarrow> True | Some xs \<Rightarrow> colIn (project_id t) xs) \<and>
      (case w_assignee w of None \<Rightarrow> True | Some pat \<Rightarrow> colLike (assignee t) pat) \<and>
      (case w_or w of
         None \<Rightarrow> True
       | Some pat \<Rightarrow>
           colLike (Some (title t)) pat \<or> colLike (description t) pat \<or> colLike (tags t) pat))"

text \<open>
  \<open>ORDER BY\<close>: the store either rejects the column and direction it is given (no such
  column, no such direction) or compares two rows by them; which it does is a parameter
  of the handler, \<open>None\<close> being the rejection. The rows are put in order by insertion under
  the comparison. \<open>LIMIT\<close> and \<open>OFFSET\<close>: a negative offset is 0 and a negative limit is no
  limit; a limit or an offset that is not a signed 64-bit integer is rejected. A rejected
  query is \<open>None\<close>: the exception \<open>findAndCountAll\<close> throws.
\<close>

fun insertOrdered :: "('a \<Rightarrow> 'a \<Rightarrow> bool) \<Rightarrow> 'a \<Rightarrow> 'a list \<Rightarrow> 'a list" where
  "insertOrdered le x [] = [x]"
| "insertOrdered le x (y # ys) = (if le x y then x # y # ys else y # insertOrdered le x ys)"

definition orderBy :: "('a \<Rightarrow> 'a \<Rightarrow> bool) \<Rightarrow> 'a list \<Rightarrow> 'a list" where
  "orderBy le xs = foldr (insertOrdered le) xs []"

definition limitOffset :: "int \<Rightarrow> int \<Rightarrow> 'a list \<Rightarrow> 'a list" where
  "limitOffset n off xs =
     (let ys = drop (nat off) xs in if n < 0 then ys else take (nat n) ys)"

record found =
  f_count :: nat
  f_rows :: "task list"

definition sqlInteger :: "int \<Rightarrow> bool" where
  "sqlInteger n = (- (2 ^ 63) \<le> n \<and> n < 2 ^ 63)"

definition findAndCountAll ::
  "(task \<Rightarrow> task \<Rightarrow> bool) option \<Rightarrow> whereClause \<Rightarrow> int \<Rightarrow> int \<Rightarrow> store \<Rightarrow> found option"
  where
  "findAndCountAll order w n off st =
     (case order of
        None \<Rightarrow> None
      | Some le \<Rightarrow>
          if sqlInteger n \<and> sqlInteger off then
            (let matching = filter (matches w) (rows st)
             in Some \<lparr>f_count = length matching,
                      f_rows = limitOffset n off (orderBy le matching)\<rparr>)
          else None)"

text \<open>
  The enriched row of an answer: the row and its \<open>duration\<close> (the two label properties are
  left out). \<open>task.getDuration ? task.getDuration() : null\<close> calls the method only when
  the ORM has attached the model's \<open>instanceMethods\<close> to the instance; whether it does is
  the parameter \<open>attached\<close>.
\<close>

record task_json =
  j_task :: task
  j_duration :: "rat option"

definition enrich :: "bool \<Rightarrow> task \<Rightarrow> task_json" where
  "enrich attached t = \<lparr>j_task = t, j_duration = (if attached then getDuration t else None)\<rparr>"

definition toUpperCase :: "string \<Rightarrow> string" where
  "toUpperCase s =
     map (\<lambda>c. let n = of_char c :: nat in if 97 \<le> n \<and> n \<le> 122 then char_of (n - 32) else c) s"

text \<open>
  The handler answers 500 from its \<open>catch\<close> block when the store rejects the query.
  \<open>totalPages\<close> is \<open>None\<close> when \<open>Math.ceil(count / limitNum)\<close> is not a finite number, which
  is when \<open>limitNum\<close> is 0: the quotient is then \<open>Infinity\<close> for a positive count and \<open>NaN\<close>
  for a count of 0, and \<open>page < Infinity\<close> holds while \<open>page < NaN\<close> does not.
\<close>

record pagination =
  total :: nat
  page :: int
  limit :: int
  totalPages :: "int option"
  hasNext :: bool
  hasPrev :: bool

record listing =
  data :: "task_json list"
  pages :: pagination

definition Math_ceil_div :: "nat \<Rightarrow> int \<Rightarrow> int option" where
  "Math_ceil_div n d = (if d = 0 then None else Some \<lceil>(of_nat n :: rat) / of_int d\<rceil>)"

definition pageNum :: "query \<Rightarrow> int" where
  "pageNum q = (case q_page q of None \<Rightarrow> 1 | Some p \<Rightarrow> p)"

definition limitNum :: "query \<Rightarrow> int" where
  "limitNum q = (case q_limit q of None \<Rightarrow> 10 | Some l \<Rightarrow> l)"

definition listOffset :: "query \<Rightarrow> int" where
  "listOffset q = (pageNum q - 1) * limitNum q"

definition listTasks ::
  "bool \<Rightarrow> (string \<Rightarrow> string \<Rightarrow> (task \<Rightarrow> task \<Rightarrow> bool) option) \<Rightarrow> query \<Rightarrow> store \<Rightarrow>
     listing response" where
  "listTasks attached cmp q st =
     (let sortBy = (case q_sortBy q of None \<Rightarrow> ''created_at'' | Some s \<Rightarrow> s);
          sortOrder = (case q_sortOrder q of None \<Rightarrow> ''DESC'' | Some s \<Rightarrow> s);
          wh = buildWhere q;
          offset = listOffset q
      in
        case findAndCountAll (cmp sortBy (toUpperCase sortOrder)) wh (limitNum q) offset st of
          None \<Rightarrow> Response 500 (Inl ServerError)
        | Some result \<Rightarrow>
            (let tasks = map (enrich attached) (f_rows result)
             in Response 200 (Inr
                  \<lparr>data = tasks,
                   pages =
                     \<lparr>total = f_count result, page = pageNum q, limit = limitNum q,
                      totalPages = Math_ceil_div (f_count result) (limitNum q),
                      hasNext =
                        (case Math_ceil_div (f_count result) (limitNum q) of
                           Some n \<Rightarrow> pageNum q < n
                         | None \<Rightarrow> 0 < f_count result),
                      hasPrev = (1 < pageNum q)\<rparr>\<rparr>)))"

subsection \<open>\<open>GET /api/tasks/:id\<close>\<close>

definition getTask :: "bool \<Rightarrow> nat \<Rightarrow> store \<Rightarrow> task_json response" where
  "getTask attached i st =
     (case findByPk i st of
        None \<Rightarrow> Response 404 (Inl TaskNotFound)
      | Some task \<Rightarrow> Response 200 (Inr (enrich attached task)))"

section \<open>The specification's vocabulary\<close>

text \<open>
  The contract of the specification's status transition engine, in its words: four rules,
  and every other transition leaves both fields unchanged. \<open>existing\<close> is the pair
  \<open>(started_at, completed_at)\<close> of the stored row.
\<close>

definition computeDerivedTimestamps ::
  "string \<Rightarrow> string \<Rightarrow> int option \<times> int option \<Rightarrow> int \<Rightarrow> int option \<times> int option" where
  "computeDerivedTimestamps previousStatus nextStatus existing now =
     (let started =
            (if nextStatus = ''in_progress'' \<and> previousStatus \<noteq> ''in_progress''
                \<and> fst existing = None
             then Some now
             else if previousStatus = ''in_progress'' \<and> nextStatus = ''todo'' then None
             else fst existing);
          completed =
            (if nextStatus = ''approved'' \<and> previousStatus \<noteq> ''approved'' then Some now
             else if previousStatus = ''approved'' \<and> nextStatus \<noteq> ''approved'' then None
             else snd existing)
      in (started, completed))"

text \<open>
  The duration of the specification: the time from \<open>s\<close> to \<open>c\<close> in days, rounded to two
  decimal places.
\<close>

definition elapsedDays2dp :: "int \<Rightarrow> int \<Rightarrow> rat" where
  "elapsedDays2dp s c =
     of_int (Math_round (of_int (c - s) / (1000 * 60 * 60 * 24) * 100)) / 100"

text \<open>
  A write to the status of the task with key \<open>i\<close> is a full update or a quick status
  patch, made at some instant; a sequence of them is run from left to right.
\<close>

datatype status_write = Put props | Patch props

fun target :: "status_write \<Rightarrow> string field" where
  "target (Put req) = p_status req"
| "target (Patch req) = p_status req"

fun handle :: "nat \<Rightarrow> int \<times> status_write \<Rightarrow> store \<Rightarrow> task response \<times> store" where
  "handle i (now, Put req) st = updateTask now i req st"
| "handle i (now, Patch req) st = patchStatus now i req st"

fun runWrites :: "nat \<Rightarrow> (int \<times> status_write) list \<Rightarrow> store \<Rightarrow> store" where
  "runWrites i [] st = st"
| "runWrites i (w # ws) st = runWrites i ws (snd (handle i w st))"

text \<open>
  The conditions of a validation failure. A property that is \<open>null\<close> is supplied and is
  not a valid value. \<open>claimedTitleInvalid\<close> follows the specification's words (the title,
  after trimming, is empty or longer than 100 characters); \<open>rawTitleInvalid\<close> measures
  the length of the title as it was sent.
\<close>

definition suppliedInvalid :: "string list \<Rightarrow> string field \<Rightarrow> bool" where
  "suppliedInvalid xs f = (case f of Undefined \<Rightarrow> False | Null \<Rightarrow> True | Val v \<Rightarrow> v \<notin> set xs)"


definition rawTitleInvalid :: "string field \<Rightarrow> bool" where
  "rawTitleInvalid f =
     (case f of Undefined \<Rightarrow> False | Null \<Rightarrow> True | Val s \<Rightarrow> trim s = [] \<or> 100 < length s)"



text \<open>
  The filter of the specification, in its words: a given \<open>status\<close>, \<open>priority\<close> or
  \<open>project_id\<close> is a set the column's value must be in (one value being a one-element
  set), a given \<open>assignee\<close> must occur in the column as a substring, and a given \<open>search\<close>
  must occur as a substring in \<open>title\<close>, \<open>description\<close> or \<open>tags\<close>.
\<close>

definition inGiven :: "qparam \<Rightarrow> string option \<Rightarrow> bool" where
  "inGiven p col =
     (case p of
        QAbsent \<Rightarrow> True
      | _ \<Rightarrow> (case col of None \<Rightarrow> False | Some v \<Rightarrow> v \<in> set (asArray p)))"

definition containsString :: "string option \<Rightarrow> string \<Rightarrow> bool" where
  "containsString col s = (case col of None \<Rightarrow> False | Some t \<Rightarrow> sublist s t)"

definition claimedMatch :: "query \<Rightarrow> task \<Rightarrow> bool" where
  "claimedMatch q t =
     (inGiven (q_status q) (Some (status t)) \<and>
      inGiven (q_priority q) (Some (priority t)) \<and>
      inGiven (q_project_id q) (project_id t) \<and>
      (case q_assignee q of None \<Rightarrow> True | Some a \<Rightarrow> containsString (assignee t) a) \<and>
      (case q_search q of
         None \<Rightarrow> True
       | Some x \<Rightarrow>
           containsString (Some (title t)) x \<or> containsString (description t) x \<or>
           containsString (tags t) x))"

text \<open>
  The filter as the store applies it: a parameter that is the empty string is not a filter, and a
  string occurs in a column when it does so without regard to ASCII letter case.
  \<open>noWildcard\<close> holds of a string with neither \<open>%\<close> nor \<open>_\<close> in it.
\<close>

definition inGivenNonEmpty :: "qparam \<Rightarrow> string option \<Rightarrow> bool" where
  "inGivenNonEmpty p col =
     (case p of
        QAbsent \<Rightarrow> True
      | QSingle s \<Rightarrow> s = [] \<or> col = Some s
      | QMany xs \<Rightarrow> (case col of None \<Rightarrow> False | Some v \<Rightarrow> v \<in> set xs))"

definition containsFolded :: "string option \<Rightarrow> string \<Rightarrow> bool" where
  "containsFolded col s =
     (case col of None \<Rightarrow> False | Some t \<Rightarrow> sublist (map lower s) (map lower t))"

definition filtersHold :: "query \<Rightarrow> task \<Rightarrow> bool" where
  "filtersHold q t =
     (inGivenNonEmpty (q_status q) (Some (status t)) \<and>
      inGivenNonEmpty (q_priority q) (Some (priority t)) \<and>
      inGivenNonEmpty (q_project_id q) (project_id t) \<and>
      (case q_assignee q of
         None \<Rightarrow> True
       | Some a \<Rightarrow> a = [] \<or> containsFolded (assignee t) a) \<and>
      (case q_search q of
         None \<Rightarrow> True
       | Some x \<Rightarrow>
           x = [] \<or> containsFolded (Some (title t)) x \<or> containsFolded (description t) x \<or>
           containsFolded (tags t) x))"

definition noWildcard :: "string \<Rightarrow> bool" where
  "noWildcard s = (CHR ''%'' \<notin> set s \<and> CHR ''_'' \<notin> set s)"

section \<open>Example data\<close>

definition emptyStore :: store where
  "emptyStore = \<lparr>rows = [], next_id = 1\<rparr>"

definition emptyQuery :: query where
  "emptyQuery =
     \<lparr>q_status = QAbsent, q_priority = QAbsent, q_project_id = QAbsent, q_assignee = None,
      q_search = None, q_page = None, q_limit = None, q_sortBy = None, q_sortOrder = None\<rparr>"

definition exampleTask :: task where
  "exampleTask =
     \<lparr>task_id = 1, title = ''Write spec'', description = None, priority = ''high'',
      status = ''todo'', assignee = Some ''bob'', due_date = None, started_at = None,
      completed_at = None, tags = None, estimated_hours = None, actual_hours = None,
      project_id = None, project_name = None, created_at = 1000, updated_at = 1000\<rparr>"

definition exampleStore :: store where
  "exampleStore = \<lparr>rows = [exampleTask], next_id = 2\<rparr>"

definition statusRequest :: "string \<Rightarrow> props" where
  "statusRequest s = emptyObject\<lparr>p_status := Val s\<rparr>"

definition approvedRequest :: props where
  "approvedRequest = emptyObject\<lparr>p_title := Val ''Ship it'', p_status := Val ''approved''\<rparr>"

definition approvedTask :: task where
  "approvedTask =
     \<lparr>task_id = 1, title = ''Ship it'', description = None, priority = ''medium'',
      status = ''approved'', assignee = None, due_date = None, started_at = None,
      completed_at = None, tags = None, estimated_hours = None, actual_hours = None,
      project_id = None, project_name = None, created_at = 1000, updated_at = 1000\<rparr>"

text \<open>A task started on 2024-01-01 00:00 UTC and approved one day later.\<close>

definition oneDayTask :: task where
  "oneDayTask =
     \<lparr>task_id = 1, title = ''Ship it'', description = None, priority = ''medium'',
      status = ''approved'', assignee = None, due_date = None,
      started_at = Some 1704067200000, completed_at = Some 1704153600000, tags = None,
      estimated_hours = None, actual_hours = None, project_id = None, project_name = None,
      created_at = 1704067200000, updated_at = 1704153600000\<rparr>"

definition oneDayStore :: store where
  "oneDayStore = \<lparr>rows = [oneDayTask], next_id = 2\<rparr>"



text \<open>A title that is one no-break space.\<close>

definition nbspRequest :: props where
  "nbspRequest = emptyObject\<lparr>p_title := Val [CHR 0xA0]\<rparr>"

text \<open>A request that also carries the properties a create does not read.\<close>

definition fullRequest :: props where
  "fullRequest =
     \<lparr>p_id = Val 99, p_title = Val '' Write spec '', p_description = Val ''the spec'',
      p_priority = Val ''high'', p_status = Undefined, p_assignee = Val ''bob'',
      p_due_date = Undefined, p_started_at = Val 5, p_completed_at = Val 6,
      p_tags = Val ''doc'', p_estimated_hours = Val 3, p_actual_hours = Val 4,
      p_project_id = Null, p_project_name = Undefined\<rparr>"

definition fullTask :: task where
  "fullTask =
     \<lparr>task_id = 1, title = ''Write spec'', description = Some ''the spec'', priority = ''high'',
      status = ''todo'', assignee = Some ''bob'', due_date = None, started_at = None,
      completed_at = None, tags = Some ''doc'', estimated_hours = Some 3, actual_hours = None,
      project_id = None, project_name = None, created_at = 1000, updated_at = 1000\<rparr>"

text \<open>
  Three rows created one after the other, and a store that orders by \<open>created_at\<close> and
  knows no other column.
\<close>

definition taskNo :: "nat \<Rightarrow> task" where
  "taskNo n = exampleTask\<lparr>task_id := n, created_at := 1000 * int n, updated_at := 1000 * int n\<rparr>"

definition threeStore :: store where
  "threeStore = \<lparr>rows = [taskNo 1, taskNo 2, taskNo 3], next_id = 4\<rparr>"

definition newestFirst :: "task \<Rightarrow> task \<Rightarrow> bool" where
  "newestFirst a b = (created_at b \<le> created_at a)"

definition byCreatedAt :: "string \<Rightarrow> string \<Rightarrow> (task \<Rightarrow> task \<Rightarrow> bool) option" where
  "byCreatedAt sortBy direction =
     (if sortBy = ''created_at'' \<and> direction = ''DESC'' then Some newestFirst
      else if sortBy = ''created_at'' \<and> direction = ''ASC'' then Some (\<lambda>a b. newestFirst b a)
      else None)"

definition pageQuery :: "int \<Rightarrow> int \<Rightarrow> query" where
  "pageQuery p l = emptyQuery\<lparr>q_page := Some p, q_limit := Some l\<rparr>"

definition underscoreQuery :: query where
  "underscoreQuery = emptyQuery\<lparr>q_assignee := Some ''_''\<rparr>"

definition upperCaseQuery :: query where
  "upperCaseQuery =
     emptyQuery\<lparr>q_status := QMany [''in_progress'', ''todo''], q_assignee := Some ''BO'',
       q_search := Some ''SPEC''\<rparr>"

definition mixedStore :: store where
  "mixedStore = \<lparr>rows = [exampleTask, approvedTask\<lparr>task_id := 2\<rparr>], next_id = 3\<rparr>"

section \<open>Auxiliary facts\<close>

subsection \<open>Reading and writing a row\<close>

lemma findByPk_task_id: "findByPk i st = Some t \<Longrightarrow> task_id t = i"
  by (auto simp: findByPk_def find_Some_iff)

lemma find_replaced:
  "find (\<lambda>r. task_id r = i) xs = Some old \<Longrightarrow> task_id t = i \<Longrightarrow>
   find (\<lambda>r. task_id r = i) (map (\<lambda>r. if task_id r = task_id t then t else r) xs) = Some t"
  by (induction xs) (auto split: if_splits)

lemma findByPk_writeRow:
  "findByPk i st = Some old \<Longrightarrow> task_id t = i \<Longrightarrow> findByPk i (writeRow t st) = Some t"
  using find_replaced[of i "rows st" old t] by (simp add: findByPk_def writeRow_def)

lemma beforeUpdate_frame:
  "task_id (beforeUpdate p now t) = task_id t"
  "title (beforeUpdate p now t) = title t"
  "description (beforeUpdate p now t) = description t"
  "priority (beforeUpdate p now t) = priority t"
  "status (beforeUpdate p now t) = status t"
  "assignee (beforeUpdate p now t) = assignee t"
  "due_date (beforeUpdate p now t) = due_date t"
  "tags (beforeUpdate p now t) = tags t"
  "estimated_hours (beforeUpdate p now t) = estimated_hours t"
  "actual_hours (beforeUpdate p now t) = actual_hours t"
  "project_id (beforeUpdate p now t) = project_id t"
  "project_name (beforeUpdate p now t) = project_name t"
  "created_at (beforeUpdate p now t) = created_at t"
  "updated_at (beforeUpdate p now t) = updated_at t"
  by (simp_all add: beforeUpdate_def Let_def)

lemma beforeUpdate_timestamps:
  "(started_at (beforeUpdate p now t), completed_at (beforeUpdate p now t)) =
   computeDerivedTimestamps p (status t) (started_at t, completed_at t) now"
  by (simp add: beforeUpdate_def computeDerivedTimestamps_def Let_def)

lemma setValues_status_only:
  "setValues (emptyObject\<lparr>p_status := Val s\<rparr>) t = t\<lparr>status := s\<rparr>"
  by (simp add: setValues_def emptyObject_def)

lemma task_update_task_id:
  "task_update now v t st = Inr (t', st') \<Longrightarrow> task_id t' = task_id t"
  by (auto simp: task_update_def Let_def beforeUpdate_frame setValues_def split: if_splits)

lemma task_update_Inr:
  "task_update now v t st = Inr (t', st') \<Longrightarrow>
   t' = (beforeUpdate (status t) now (setValues v t))\<lparr>updated_at := now\<rparr> \<and> st' = writeRow t' st"
  by (auto simp: task_update_def Let_def split: if_splits)

lemma patchStatus_200:
  assumes "findByPk i st = Some old" and "patchStatus now i req st = (Response 200 (Inr t), st')"
  shows "\<exists>s. p_status req = Val s \<and> s \<in> set validStatuses \<and>
           t = (beforeUpdate (status old) now (old\<lparr>status := s\<rparr>))\<lparr>updated_at := now\<rparr> \<and>
           st' = writeRow t st \<and> findByPk i st' = Some t"
proof -
  from assms(2) obtain s where s: "p_status req = Val s" "s \<in> set validStatuses"
    by (cases "p_status req") (auto simp: patchStatus_def Let_def split: if_splits)
  from assms s obtain t' where
    u: "task_update now (emptyObject\<lparr>p_status := Val s\<rparr>) old st = Inr (t', st')"
    and r: "reload t' st' = Some t"
    by (auto simp: patchStatus_def Let_def split: if_splits sum.splits option.splits)
  from task_update_Inr[OF u] have
    t': "t' = (beforeUpdate (status old) now (old\<lparr>status := s\<rparr>))\<lparr>updated_at := now\<rparr>"
    and st': "st' = writeRow t' st"
    by (simp_all add: setValues_status_only)
  have id: "task_id t' = i"
    using task_update_task_id[OF u] findByPk_task_id[OF assms(1)] by simp
  have "findByPk i st' = Some t'"
    unfolding st' by (rule findByPk_writeRow[OF assms(1) id])
  with r id have "t = t'" by (simp add: reload_def)
  with s t' st' \<open>findByPk i st' = Some t'\<close> show ?thesis by blast
qed

lemma catchError_code: "catchError e \<noteq> Response 200 b" "catchError e \<noteq> Response 201 b"
  by (cases e; simp)+

lemma setValues_updateData_timestamps:
  "started_at (setValues (updateData req) t) = started_at t"
  "completed_at (setValues (updateData req) t) = completed_at t"
  "status (setValues (updateData req) t) = (case p_status req of Val s \<Rightarrow> s | _ \<Rightarrow> status t)"
  by (simp_all add: setValues_def updateData_def emptyObject_def whenDefined_def split: field.splits)

lemma updateTask_200:
  assumes "findByPk i st = Some old" and "updateTask now i req st = (Response 200 (Inr t), st')"
  shows "t = (beforeUpdate (status old) now (setValues (updateData req) old))\<lparr>updated_at := now\<rparr> \<and>
         st' = writeRow t st \<and> findByPk i st' = Some t"
proof -
  from assms obtain t' where
    u: "task_update now (updateData req) old st = Inr (t', st')"
    and r: "reload t' st' = Some t"
    by (auto simp: updateTask_def Let_def catchError_code split: if_splits sum.splits option.splits)
  from task_update_Inr[OF u] have
    t': "t' = (beforeUpdate (status old) now (setValues (updateData req) old))\<lparr>updated_at := now\<rparr>"
    and st': "st' = writeRow t' st"
    by simp_all
  have id: "task_id t' = i"
    using task_update_task_id[OF u] findByPk_task_id[OF assms(1)] by simp
  have "findByPk i st' = Some t'"
    unfolding st' by (rule findByPk_writeRow[OF assms(1) id])
  with r id have "t = t'" by (simp add: reload_def)
  with t' st' \<open>findByPk i st' = Some t'\<close> show ?thesis by blast
qed

subsection \<open>Trimming and the title validators\<close>

lemma trim_Nil_iff: "trim [] = []"
  by (simp add: trim_def)

lemma length_trim_le: "length (trim s) \<le> length s"
proof -
  have "length (dropWhile isWhiteSpace (rev (dropWhile isWhiteSpace s)))
        \<le> length (rev (dropWhile isWhiteSpace s))"
    by (rule length_dropWhile_le)
  also have "\<dots> \<le> length s" by (simp add: length_dropWhile_le)
  finally show ?thesis by (simp add: trim_def)
qed

lemma trim_not_all_space: "trim s \<noteq> [] \<Longrightarrow> \<not> list_all isWhiteSpace (trim s)"
proof -
  assume a: "trim s \<noteq> []"
  let ?d = "dropWhile isWhiteSpace (rev (dropWhile isWhiteSpace s))"
  from a have ne: "?d \<noteq> []" by (simp add: trim_def)
  then have "\<not> isWhiteSpace (hd ?d)" by (rule hd_dropWhile)
  moreover from ne have "hd ?d \<in> set ?d" by simp
  ultimately have "\<exists>c\<in>set ?d. \<not> isWhiteSpace c" by blast
  then show ?thesis by (simp add: trim_def list_all_iff)
qed

lemma validateTitle_trim:
  "trim s \<noteq> [] \<Longrightarrow> length s \<le> 100 \<Longrightarrow> validateTitle (trim s)"
  using length_trim_le[of s] trim_not_all_space[of s]
  by (cases "trim s") (auto simp: validateTitle_def)

lemma withDefault_idem: "withDefault d (withDefault d f) = withDefault d f"
  by (cases f) simp_all

lemma taskData_fields:
  "p_id (taskData req) = Undefined"
  "p_title (taskData req) = (case p_title req of Val s \<Rightarrow> Val (trim s) | f \<Rightarrow> f)"
  "p_priority (taskData req) = withDefault ''medium'' (p_priority req)"
  "p_status (taskData req) = withDefault ''todo'' (p_status req)"
  "p_started_at (taskData req) = Undefined"
  "p_completed_at (taskData req) = Undefined"
  "p_actual_hours (taskData req) = Undefined"
  by (simp_all add: taskData_def emptyObject_def)

lemma createTask_201:
  assumes "p_title req = Val s" and "trim s \<noteq> []" and "length s \<le> 100"
    and "withDefault ''medium'' (p_priority req) = Val pr" and "pr \<in> set validPriorities"
    and "withDefault ''todo'' (p_status req) = Val sta" and "sta \<in> set validStatuses"
  shows "createTask now req st =
           (Response 201 (Inr (build now (next_id st) (trim s) pr sta (taskData req))),
            insertRow (build now (next_id st) (trim s) pr sta (taskData req)) st)"
proof -
  from assms(2) have "s \<noteq> []" by (auto simp: trim_Nil_iff)
  moreover have "validateTitle (trim s)" using assms(2,3) by (rule validateTitle_trim)
  ultimately show ?thesis
    using assms
    by (simp add: createTask_def Task_create_def taskData_fields withDefault_idem Let_def)
qed

subsection \<open>What the hook keeps\<close>

lemma beforeUpdate_completed_iff:
  "(completed_at t \<noteq> None \<longleftrightarrow> p = ''approved'') \<Longrightarrow>
   (completed_at (beforeUpdate p now t) \<noteq> None \<longleftrightarrow> status t = ''approved'')"
  by (auto simp: beforeUpdate_def Let_def)

lemma write_keeps_completed_iff_approved:
  assumes "findByPk i st = Some old"
    and "completed_at old \<noteq> None \<longleftrightarrow> status old = ''approved''"
    and "handle i (now, w) st = (Response 200 (Inr t), st')"
  shows "completed_at t \<noteq> None \<longleftrightarrow> status t = ''approved''"
proof (cases w)
  case (Put req)
  with assms(3) have "updateTask now i req st = (Response 200 (Inr t), st')" by simp
  from updateTask_200[OF assms(1) this]
  have t: "t = (beforeUpdate (status old) now (setValues (updateData req) old))\<lparr>updated_at := now\<rparr>"
    by blast
  have "completed_at (setValues (updateData req) old) \<noteq> None \<longleftrightarrow> status old = ''approved''"
    using assms(2) by (simp add: setValues_updateData_timestamps)
  from beforeUpdate_completed_iff[OF this, of now] show ?thesis
    by (simp add: t beforeUpdate_frame)
next
  case (Patch req)
  with assms(3) have "patchStatus now i req st = (Response 200 (Inr t), st')" by simp
  from patchStatus_200[OF assms(1) this] obtain s where
    t: "t = (beforeUpdate (status old) now (old\<lparr>status := s\<rparr>))\<lparr>updated_at := now\<rparr>"
    by blast
  have "completed_at (old\<lparr>status := s\<rparr>) \<noteq> None \<longleftrightarrow> status old = ''approved''"
    using assms(2) by simp
  from beforeUpdate_completed_iff[OF this, of now] show ?thesis
    by (simp add: t beforeUpdate_frame)
qed

subsection \<open>The outcome of a create and of an update\<close>

lemma build_fields:
  "task_id (build now i ttl pr sta v) = i"
  "status (build now i ttl pr sta v) = sta"
  "priority (build now i ttl pr sta v) = pr"
  "started_at (build now i ttl pr sta v) = column (p_started_at v)"
  "completed_at (build now i ttl pr sta v) = column (p_completed_at v)"
  "actual_hours (build now i ttl pr sta v) = column (p_actual_hours v)"
  by (simp_all add: build_def)

lemma taskData_ignores:
  "taskData (req\<lparr>p_id := a, p_started_at := b, p_completed_at := c, p_actual_hours := d\<rparr>) =
   taskData req"
  by (simp add: taskData_def)

lemma createTask_ignores:
  "createTask now (req\<lparr>p_id := a, p_started_at := b, p_completed_at := c, p_actual_hours := d\<rparr>) st
   = createTask now req st"
  by (simp add: createTask_def taskData_ignores cong: if_cong)

lemma array_includes_withDefault:
  "d \<in> set xs \<Longrightarrow> array_includes xs (withDefault d f) \<longleftrightarrow> \<not> suppliedInvalid xs f"
  by (cases f) (simp_all add: suppliedInvalid_def)

lemma array_includes_Val: "array_includes xs f \<Longrightarrow> \<exists>v. f = Val v \<and> v \<in> set xs"
  by (cases f) simp_all

lemma createTask_result:
  "createTask now req st =
     (if p_title req = Undefined \<or> rawTitleInvalid (p_title req) \<or>
         suppliedInvalid validPriorities (p_priority req) \<or>
         suppliedInvalid validStatuses (p_status req)
      then (Response 400 (body (fst (createTask now req st))), st)
      else (Response 201 (Inr (build now (next_id st) (trim (case p_title req of Val s \<Rightarrow> s))
                (case withDefault ''medium'' (p_priority req) of Val v \<Rightarrow> v)
                (case withDefault ''todo'' (p_status req) of Val v \<Rightarrow> v) (taskData req))),
            insertRow (build now (next_id st) (trim (case p_title req of Val s \<Rightarrow> s))
                (case withDefault ''medium'' (p_priority req) of Val v \<Rightarrow> v)
                (case withDefault ''todo'' (p_status req) of Val v \<Rightarrow> v) (taskData req)) st))"
proof (cases "p_title req = Undefined \<or> rawTitleInvalid (p_title req) \<or>
         suppliedInvalid validPriorities (p_priority req) \<or>
         suppliedInvalid validStatuses (p_status req)")
  case True
  have m: "''medium'' \<in> set validPriorities" "''todo'' \<in> set validStatuses"
    by (simp_all add: validPriorities_def validStatuses_def)
  from True show ?thesis
    by (cases "p_title req")
       (auto simp: createTask_def Let_def rawTitleInvalid_def trim_Nil_iff
          array_includes_withDefault[OF m(1)] array_includes_withDefault[OF m(2)])
next
  case False
  have m: "''medium'' \<in> set validPriorities" "''todo'' \<in> set validStatuses"
    by (simp_all add: validPriorities_def validStatuses_def)
  from False obtain s where s: "p_title req = Val s" "trim s \<noteq> []" "length s \<le> 100"
    by (cases "p_title req") (auto simp: rawTitleInvalid_def)
  from False obtain pr where pr: "withDefault ''medium'' (p_priority req) = Val pr"
      "pr \<in> set validPriorities"
    using array_includes_withDefault[OF m(1), of "p_priority req"] array_includes_Val by blast
  from False obtain sta where sta: "withDefault ''todo'' (p_status req) = Val sta"
      "sta \<in> set validStatuses"
    using array_includes_withDefault[OF m(2), of "p_status req"] array_includes_Val by blast
  from False createTask_201[OF s pr sta, of now st] show ?thesis
    by (simp add: s pr sta)
qed

lemma updateData_fields:
  "p_title (updateData req) = (case p_title req of Val s \<Rightarrow> Val (trim s) | f \<Rightarrow> f)"
  "p_priority (updateData req) = p_priority req"
  "p_status (updateData req) = p_status req"
  by (simp_all add: updateData_def emptyObject_def whenDefined_def split: field.splits)

lemma task_update_ok:
  assumes "p_title v \<noteq> Null" and "p_priority v \<noteq> Null" and "p_status v \<noteq> Null"
    and "case p_title v of Val s \<Rightarrow> validateTitle s | _ \<Rightarrow> True"
  shows "task_update now v t st =
           Inr ((beforeUpdate (status t) now (setValues v t))\<lparr>updated_at := now\<rparr>,
                writeRow ((beforeUpdate (status t) now (setValues v t))\<lparr>updated_at := now\<rparr>) st)"
  using assms by (cases "p_title v") (simp_all add: task_update_def Let_def)

lemma updateTask_result:
  assumes "findByPk i st = Some old"
  shows "updateTask now i req st =
     (if rawTitleInvalid (p_title req) \<or> suppliedInvalid validPriorities (p_priority req) \<or>
         suppliedInvalid validStatuses (p_status req)
      then (Response 400 (body (fst (updateTask now i req st))), st)
      else (Response 200
              (Inr ((beforeUpdate (status old) now (setValues (updateData req) old))
                      \<lparr>updated_at := now\<rparr>)),
            writeRow ((beforeUpdate (status old) now (setValues (updateData req) old))
                      \<lparr>updated_at := now\<rparr>) st))"
proof (cases "rawTitleInvalid (p_title req) \<or> suppliedInvalid validPriorities (p_priority req) \<or>
         suppliedInvalid validStatuses (p_status req)")
  case True
  then show ?thesis
    using assms
    by (cases "p_title req"; cases "p_priority req"; cases "p_status req")
       (auto simp: updateTask_def Let_def rawTitleInvalid_def suppliedInvalid_def trim_Nil_iff)
next
  case False
  let ?t = "(beforeUpdate (status old) now (setValues (updateData req) old))\<lparr>updated_at := now\<rparr>"
  from False have v: "case p_title (updateData req) of Val s \<Rightarrow> validateTitle s | _ \<Rightarrow> True"
    by (cases "p_title req") (auto simp: updateData_fields rawTitleInvalid_def validateTitle_trim)
  from False have n: "p_title (updateData req) \<noteq> Null" "p_priority (updateData req) \<noteq> Null"
      "p_status (updateData req) \<noteq> Null"
    by (cases "p_title req"; auto simp: updateData_fields rawTitleInvalid_def suppliedInvalid_def)+
  have u: "task_update now (updateData req) old st = Inr (?t, writeRow ?t st)"
    by (rule task_update_ok[OF n v])
  have id: "task_id ?t = i"
    using findByPk_task_id[OF assms] by (simp add: beforeUpdate_frame setValues_def)
  have r: "reload ?t (writeRow ?t st) = Some ?t"
    unfolding reload_def id by (rule findByPk_writeRow[OF assms id])
  from False show ?thesis
    using assms u r
    by (cases "p_title req"; cases "p_priority req"; cases "p_status req")
       (auto simp: updateTask_def Let_def rawTitleInvalid_def suppliedInvalid_def trim_Nil_iff)
qed


subsection \<open>The outcome of a status patch, and sequences of writes\<close>

lemma patchStatus_result:
  assumes "findByPk i st = Some old"
  shows "patchStatus now i req st =
     (if \<not> array_includes validStatuses (p_status req)
      then (Response 400 (body (fst (patchStatus now i req st))), st)
      else (Response 200
              (Inr ((beforeUpdate (status old) now (setValues (statusRequest
                      (case p_status req of Val s \<Rightarrow> s)) old))\<lparr>updated_at := now\<rparr>)),
            writeRow ((beforeUpdate (status old) now (setValues (statusRequest
                      (case p_status req of Val s \<Rightarrow> s)) old))\<lparr>updated_at := now\<rparr>) st))"
proof (cases "array_includes validStatuses (p_status req)")
  case False
  then show ?thesis
    by (cases "p_status req") (auto simp: patchStatus_def Let_def)
next
  case True
  then obtain s where s: "p_status req = Val s" "s \<in> set validStatuses"
    using array_includes_Val by blast
  then have ne: "s \<noteq> []" by (auto simp: validStatuses_def)
  let ?v = "emptyObject\<lparr>p_status := Val s\<rparr>"
  let ?t = "(beforeUpdate (status old) now (setValues ?v old))\<lparr>updated_at := now\<rparr>"
  have u: "task_update now ?v old st = Inr (?t, writeRow ?t st)"
    by (rule task_update_ok) (simp_all add: emptyObject_def)
  have id: "task_id ?t = i"
    using findByPk_task_id[OF assms] by (simp add: beforeUpdate_frame setValues_def)
  have r: "reload ?t (writeRow ?t st) = Some ?t"
    unfolding reload_def id by (rule findByPk_writeRow[OF assms id])
  show ?thesis
    using True assms s ne u r by (simp add: patchStatus_def Let_def statusRequest_def)
qed

lemma setValues_statusRequest:
  "started_at (setValues (statusRequest s) t) = started_at t"
  "status (setValues (statusRequest s) t) = s"
  by (simp_all add: setValues_def statusRequest_def emptyObject_def)

lemma handle_row:
  assumes "findByPk i st = Some old"
  shows "(code (fst (handle i (now, w) st)) \<noteq> 200 \<and> snd (handle i (now, w) st) = st) \<or>
         (code (fst (handle i (now, w) st)) = 200 \<and>
          (\<exists>v. started_at v = started_at old \<and>
               status v = (case target w of Val s \<Rightarrow> s | _ \<Rightarrow> status old) \<and>
               findByPk i (snd (handle i (now, w) st)) =
                 Some ((beforeUpdate (status old) now v)\<lparr>updated_at := now\<rparr>)))"
proof (cases w)
  case (Put req)
  let ?v = "setValues (updateData req) old"
  let ?t = "(beforeUpdate (status old) now ?v)\<lparr>updated_at := now\<rparr>"
  have id: "task_id ?t = i"
    using findByPk_task_id[OF assms] by (simp add: beforeUpdate_frame setValues_def)
  have f: "findByPk i (writeRow ?t st) = Some ?t"
    by (rule findByPk_writeRow[OF assms id])
  have v: "started_at ?v = started_at old"
    "status ?v = (case target w of Val s \<Rightarrow> s | _ \<Rightarrow> status old)"
    by (simp_all add: Put setValues_updateData_timestamps)
  show ?thesis
  proof (cases "rawTitleInvalid (p_title req) \<or> suppliedInvalid validPriorities (p_priority req)
      \<or> suppliedInvalid validStatuses (p_status req)")
    case True
    then show ?thesis
      unfolding Put handle.simps by (subst (1 2) updateTask_result[OF assms]) simp
  next
    case False
    then have "code (fst (updateTask now i req st)) = 200"
      "snd (updateTask now i req st) = writeRow ?t st"
      by (subst updateTask_result[OF assms]; simp)+
    with f v show ?thesis unfolding Put handle.simps by metis
  qed
next
  case (Patch req)
  show ?thesis
  proof (cases "array_includes validStatuses (p_status req)")
    case False
    then show ?thesis
      unfolding Patch handle.simps by (subst (1 2) patchStatus_result[OF assms]) simp
  next
    case True
    then obtain s where s: "p_status req = Val s" using array_includes_Val by blast
    let ?v = "setValues (statusRequest s) old"
    let ?t = "(beforeUpdate (status old) now ?v)\<lparr>updated_at := now\<rparr>"
    have id: "task_id ?t = i"
      using findByPk_task_id[OF assms] by (simp add: beforeUpdate_frame setValues_def)
    have f: "findByPk i (writeRow ?t st) = Some ?t"
      by (rule findByPk_writeRow[OF assms id])
    have v: "started_at ?v = started_at old"
      "status ?v = (case target w of Val s \<Rightarrow> s | _ \<Rightarrow> status old)"
      by (simp_all add: Patch s setValues_statusRequest)
    from True have "code (fst (patchStatus now i req st)) = 200"
      "snd (patchStatus now i req st) = writeRow ?t st"
      by (subst patchStatus_result[OF assms]; simp add: s)+
    with f v show ?thesis unfolding Patch handle.simps by metis
  qed
qed

lemma beforeUpdate_sets_started_at:
  "p \<noteq> ''in_progress'' \<Longrightarrow> status v = ''in_progress'' \<Longrightarrow> started_at v = None \<Longrightarrow>
   started_at (beforeUpdate p now v) = Some now"
  by (simp add: beforeUpdate_def Let_def)

lemma beforeUpdate_keeps_started_at:
  "started_at v = Some s \<Longrightarrow> status v \<noteq> ''todo'' \<or> p \<noteq> ''in_progress'' \<Longrightarrow>
   started_at (beforeUpdate p now v) = Some s"
  by (auto simp: beforeUpdate_def Let_def)

lemma handle_keeps_started_at:
  assumes "findByPk i st = Some old" and "started_at old = Some s"
    and "target w \<noteq> Val ''todo''"
  shows "\<exists>t. findByPk i (snd (handle i (now, w) st)) = Some t \<and> started_at t = Some s"
proof -
  from handle_row[OF assms(1), of now w] show ?thesis
  proof (elim disjE conjE exE)
    assume "snd (handle i (now, w) st) = st"
    with assms(1,2) show ?thesis by simp
  next
    fix v
    assume v: "started_at v = started_at old"
      "status v = (case target w of Val s \<Rightarrow> s | _ \<Rightarrow> status old)"
      and f: "findByPk i (snd (handle i (now, w) st)) =
                 Some ((beforeUpdate (status old) now v)\<lparr>updated_at := now\<rparr>)"
    from v assms(3) have "status v \<noteq> ''todo'' \<or> status old \<noteq> ''in_progress''"
      by (cases "target w") auto
    with v(1) assms(2) have "started_at (beforeUpdate (status old) now v) = Some s"
      by (simp add: beforeUpdate_keeps_started_at)
    with f show ?thesis by simp
  qed
qed

lemma runWrites_keeps_started_at:
  "findByPk i st = Some old \<Longrightarrow> started_at old = Some s \<Longrightarrow>
   list_all (\<lambda>(tm, w). target w \<noteq> Val ''todo'') ws \<Longrightarrow>
   \<exists>t. findByPk i (runWrites i ws st) = Some t \<and> started_at t = Some s"
proof (induction ws arbitrary: st old)
  case Nil
  then show ?case by simp
next
  case (Cons a ws)
  obtain tm w where a: "a = (tm, w)" by (cases a)
  with Cons.prems(3) have w: "target w \<noteq> Val ''todo''"
    and ws: "list_all (\<lambda>(tm, w). target w \<noteq> Val ''todo'') ws" by simp_all
  from handle_keeps_started_at[OF Cons.prems(1,2) w, of tm] obtain t where
    t: "findByPk i (snd (handle i (tm, w) st)) = Some t" "started_at t = Some s" by blast
  from Cons.IH[OF t ws] show ?case by (simp add: a)
qed

subsection \<open>Ordering and paging\<close>

lemma length_insertOrdered: "length (insertOrdered le x xs) = Suc (length xs)"
  by (induction xs) simp_all

lemma length_orderBy: "length (orderBy le xs) = length xs"
  by (induction xs) (simp_all add: orderBy_def length_insertOrdered)

lemma set_insertOrdered: "set (insertOrdered le x xs) = insert x (set xs)"
  by (induction xs) auto

lemma set_orderBy: "set (orderBy le xs) = set xs"
  by (induction xs) (simp_all add: orderBy_def set_insertOrdered)

lemma beyond_last_page:
  fixes P L :: int and N :: nat
  assumes "1 \<le> L" and "\<lceil>(of_nat N :: rat) / of_int L\<rceil> < P"
  shows "int N \<le> (P - 1) * L"
proof -
  from assms(2) have "\<lceil>(of_nat N :: rat) / of_int L\<rceil> \<le> P - 1" by simp
  then have "(of_nat N :: rat) / of_int L \<le> of_int (P - 1)" by (simp only: ceiling_le_iff)
  moreover from assms(1) have "(0 :: rat) < of_int L" by simp
  ultimately have "(of_nat N :: rat) \<le> of_int (P - 1) * of_int L"
    by (simp add: pos_divide_le_eq)
  then have "(of_int (int N) :: rat) \<le> of_int ((P - 1) * L)" by simp
  then show ?thesis by (simp only: of_int_le_iff)
qed

subsection \<open>Patterns between \<open>%\<close> signs\<close>

lemma like_percent: "like ''%'' t"
  by (induction t) simp_all

lemma like_prefix:
  "noWildcard s \<Longrightarrow> like (s @ ''%'') t \<longleftrightarrow> prefix (map lower s) (map lower t)"
proof (induction s arbitrary: t)
  case Nil
  then show ?case using like_percent by simp
next
  case (Cons c cs)
  then have c: "c \<noteq> CHR ''%''" "c \<noteq> CHR ''_''" and cs: "noWildcard cs"
    by (auto simp: noWildcard_def)
  show ?case
  proof (cases t)
    case Nil
    with c show ?thesis by simp
  next
    case (Cons d ds)
    with c Cons.IH[OF cs, of ds] show ?thesis by auto
  qed
qed

lemma like_substring:
  assumes "noWildcard s"
  shows "like (CHR ''%'' # s @ ''%'') t \<longleftrightarrow> sublist (map lower s) (map lower t)"
proof (induction t)
  case Nil
  have "like (s @ ''%'') [] \<longleftrightarrow> s = []"
    using like_prefix[OF assms, of "[]"] by simp
  then show ?case by simp
next
  case (Cons d ds)
  have "like (CHR ''%'' # s @ ''%'') (d # ds) \<longleftrightarrow>
          like (s @ ''%'') (d # ds) \<or> like (CHR ''%'' # s @ ''%'') ds"
    by simp
  also have "\<dots> \<longleftrightarrow> prefix (map lower s) (map lower (d # ds)) \<or>
                     sublist (map lower s) (map lower ds)"
    using like_prefix[OF assms, of "d # ds"] Cons.IH by simp
  also have "\<dots> \<longleftrightarrow> sublist (map lower s) (map lower (d # ds))"
    by (simp add: sublist_Cons_right)
  finally show ?case .
qed

lemma colLike_contains:
  "noWildcard s \<Longrightarrow> colLike col (CHR ''%'' # s @ ''%'') \<longleftrightarrow> containsFolded col s"
  by (cases col) (simp_all add: colLike_def containsFolded_def like_substring del: like.simps)

lemma where_in:
  "(case (if truthyParam p then Some (asArray p) else None) of
      None \<Rightarrow> True | Some xs \<Rightarrow> colIn col xs) \<longleftrightarrow> inGivenNonEmpty p col"
  by (cases p; cases col) (auto simp: colIn_def inGivenNonEmpty_def)

lemma matches_filtersHold:
  assumes "case q_assignee q of Some a \<Rightarrow> noWildcard a | None \<Rightarrow> True"
    and "case q_search q of Some x \<Rightarrow> noWildcard x | None \<Rightarrow> True"
  shows "matches (buildWhere q) t \<longleftrightarrow> filtersHold q t"
proof -
  have a: "(case (case q_assignee q of
                    Some a \<Rightarrow> if a \<noteq> [] then Some (''%'' @ a @ ''%'') else None
                  | None \<Rightarrow> None) of
              None \<Rightarrow> True | Some pat \<Rightarrow> colLike (assignee t) pat) \<longleftrightarrow>
           (case q_assignee q of
              None \<Rightarrow> True | Some a \<Rightarrow> a = [] \<or> containsFolded (assignee t) a)"
    using assms(1) by (cases "q_assignee q") (simp_all add: colLike_contains)
  have s: "(case (case q_search q of
                    Some x \<Rightarrow> if x \<noteq> [] then Some (''%'' @ x @ ''%'') else None
                  | None \<Rightarrow> None) of
              None \<Rightarrow> True
            | Some pat \<Rightarrow> colLike (Some (title t)) pat \<or> colLike (description t) pat \<or>
                colLike (tags t) pat) \<longleftrightarrow>
           (case q_search q of
              None \<Rightarrow> True
            | Some x \<Rightarrow> x = [] \<or> containsFolded (Some (title t)) x \<or>
                containsFolded (description t) x \<or> containsFolded (tags t) x)"
    using assms(2) by (cases "q_search q") (simp_all add: colLike_contains)
  show ?thesis
    unfolding matches_def buildWhere_def filtersHold_def
    by (simp only: whereClause.simps where_in a s)
qed

lemma set_limitOffset: "set (limitOffset n off xs) \<subseteq> set xs"
proof -
  have "set (take k (drop j xs)) \<subseteq> set xs" for k j
    using set_take_subset[of k "drop j xs"] set_drop_subset[of j xs] by blast
  moreover have "set (drop j xs) \<subseteq> set xs" for j by (rule set_drop_subset)
  ultimately show ?thesis by (simp add: limitOffset_def Let_def)
qed

lemma limitOffset_all: "off = 0 \<Longrightarrow> int (length xs) \<le> n \<Longrightarrow> limitOffset n off xs = xs"
  by (simp add: limitOffset_def)

subsection \<open>The scenario of the specification\<close>

text \<open>
  Create a task, start it by a status patch, approve it and reject it by full updates:
  the status, \<open>started_at\<close> and \<open>completed_at\<close> of the row after each step.
\<close>

lemma specification_scenario:
  "(let st1 = snd (createTask 1000
                (emptyObject\<lparr>p_title := Val ''Write spec'', p_priority := Val ''high''\<rparr>)
                emptyStore);
        st2 = snd (patchStatus 2000 1 (statusRequest ''in_progress'') st1);
        st3 = snd (updateTask 3000 1 (statusRequest ''approved'') st2);
        st4 = snd (updateTask 4000 1 (statusRequest ''rejected_revision'') st3)
    in map (\<lambda>st. map_option (\<lambda>t. (status t, started_at t, completed_at t)) (findByPk 1 st))
         [st1, st2, st3, st4])
   = [Some (''todo'', None, None),
      Some (''in_progress'', Some 2000, None),
      Some (''approved'', Some 2000, Some 3000),
      Some (''rejected_revision'', Some 2000, None)]"
  by code_simp

subsection \<open>The answer of the list handler\<close>

lemma listTasks_200:
  assumes "listTasks attached cmp q st = Response 200 (Inr \<lparr>data = d, pages = p\<rparr>)"
  shows "\<exists>le. cmp (case q_sortBy q of None \<Rightarrow> ''created_at'' | Some s \<Rightarrow> s)
                 (toUpperCase (case q_sortOrder q of None \<Rightarrow> ''DESC'' | Some s \<Rightarrow> s)) = Some le \<and>
           sqlInteger (limitNum q) \<and> sqlInteger (listOffset q) \<and>
           d = map (enrich attached)
                 (limitOffset (limitNum q) (listOffset q)
                    (orderBy le (filter (matches (buildWhere q)) (rows st)))) \<and>
           p = \<lparr>total = length (filter (matches (buildWhere q)) (rows st)),
                 page = pageNum q, limit = limitNum q,
                 totalPages =
                   Math_ceil_div (length (filter (matches (buildWhere q)) (rows st))) (limitNum q),
                 hasNext =
                   (case Math_ceil_div (length (filter (matches (buildWhere q)) (rows st)))
                           (limitNum q) of
                      Some n \<Rightarrow> pageNum q < n
                    | None \<Rightarrow> 0 < length (filter (matches (buildWhere q)) (rows st))),
                 hasPrev = (1 < pageNum q)\<rparr>"
  using assms
  by (auto simp: listTasks_def findAndCountAll_def Let_def split: option.splits if_splits)

lemma listTasks_code:
  "code (listTasks attached cmp q st) =
     (if cmp (case q_sortBy q of None \<Rightarrow> ''created_at'' | Some s \<Rightarrow> s)
             (toUpperCase (case q_sortOrder q of None \<Rightarrow> ''DESC'' | Some s \<Rightarrow> s)) \<noteq> None \<and>
         sqlInteger (limitNum q) \<and> sqlInteger (listOffset q)
      then 200 else 500)"
  by (auto simp: listTasks_def findAndCountAll_def Let_def split: option.splits)

subsection \<open>A title of white space\<close>

lemma nbsp_title_refused:
  "createTask 0 nbspRequest exampleStore = (Response 400 (Inl TitleEmpty), exampleStore) \<and>
   updateTask 0 1 nbspRequest exampleStore = (Response 400 (Inl TitleEmpty), exampleStore)"
  by code_simp

section \<open>Status transitions\<close>

text \<open>
  Claim C2. On every successful status-affecting write, the full update as well as the
  quick status patch, the row that is written carries exactly the derived timestamps of
  \<open>computeDerivedTimestamps\<close>, taken with the status stored immediately before the write
  as \<open>previousStatus\<close>, the status of the written row as \<open>nextStatus\<close>, and the stored
  \<open>started_at\<close> and \<open>completed_at\<close> as the existing values.
\<close>

theorem status_write_derived_timestamps:
  assumes "findByPk i st = Some old"
  shows "(updateTask now i req st = (Response 200 (Inr t), st') \<longrightarrow>
            findByPk i st' = Some t \<and>
            status t = (case p_status req of Val s \<Rightarrow> s | _ \<Rightarrow> status old) \<and>
            (started_at t, completed_at t) =
              computeDerivedTimestamps (status old) (status t) (started_at old, completed_at old) now)
       \<and> (patchStatus now i req st = (Response 200 (Inr t), st') \<longrightarrow>
            findByPk i st' = Some t \<and>
            p_status req = Val (status t) \<and>
            (started_at t, completed_at t) =
              computeDerivedTimestamps (status old) (status t) (started_at old, completed_at old) now)"
proof (intro conjI impI)
  assume a: "updateTask now i req st = (Response 200 (Inr t), st')"
  note u = updateTask_200[OF assms a]
  from u show "findByPk i st' = Some t" by blast
  from u show "status t = (case p_status req of Val s \<Rightarrow> s | _ \<Rightarrow> status old)"
    by (simp add: beforeUpdate_frame setValues_updateData_timestamps)
  from u have "t = (beforeUpdate (status old) now (setValues (updateData req) old))\<lparr>updated_at := now\<rparr>"
    by simp
  then show "(started_at t, completed_at t) =
      computeDerivedTimestamps (status old) (status t) (started_at old, completed_at old) now"
    using beforeUpdate_timestamps[of "status old" now "setValues (updateData req) old"]
    by (simp add: beforeUpdate_frame setValues_updateData_timestamps)
next
  assume a: "patchStatus now i req st = (Response 200 (Inr t), st')"
  from patchStatus_200[OF assms a] obtain s where
    s: "p_status req = Val s"
    and t: "t = (beforeUpdate (status old) now (old\<lparr>status := s\<rparr>))\<lparr>updated_at := now\<rparr>"
    and f: "findByPk i st' = Some t" by blast
  from f show "findByPk i st' = Some t" .
  from s t show "p_status req = Val (status t)" by (simp add: beforeUpdate_frame)
  from t show "(started_at t, completed_at t) =
      computeDerivedTimestamps (status old) (status t) (started_at old, completed_at old) now"
    using beforeUpdate_timestamps[of "status old" now "old\<lparr>status := s\<rparr>"]
    by (simp add: beforeUpdate_frame)
qed

theorem status_write_derived_timestamps_witness:
  "findByPk 1 exampleStore = Some exampleTask \<and>
   updateTask 2000 1 (statusRequest ''in_progress'') exampleStore =
     (Response 200 (Inr (exampleTask\<lparr>status := ''in_progress'', started_at := Some 2000,
        updated_at := 2000\<rparr>)),
      \<lparr>rows = [exampleTask\<lparr>status := ''in_progress'', started_at := Some 2000,
        updated_at := 2000\<rparr>], next_id = 2\<rparr>) \<and>
   patchStatus 2000 1 (statusRequest ''in_progress'') exampleStore =
     (Response 200 (Inr (exampleTask\<lparr>status := ''in_progress'', started_at := Some 2000,
        updated_at := 2000\<rparr>)),
      \<lparr>rows = [exampleTask\<lparr>status := ''in_progress'', started_at := Some 2000,
        updated_at := 2000\<rparr>], next_id = 2\<rparr>) \<and>
   computeDerivedTimestamps ''todo'' ''in_progress'' (None, None) 2000 = (Some 2000, None)"
proof -
  have h: "findByPk 1 exampleStore = Some exampleTask" by code_simp
  have u: "updateTask 2000 1 (statusRequest ''in_progress'') exampleStore =
     (Response 200 (Inr (exampleTask\<lparr>status := ''in_progress'', started_at := Some 2000,
        updated_at := 2000\<rparr>)),
      \<lparr>rows = [exampleTask\<lparr>status := ''in_progress'', started_at := Some 2000,
        updated_at := 2000\<rparr>], next_id = 2\<rparr>)" by code_simp
  have p: "patchStatus 2000 1 (statusRequest ''in_progress'') exampleStore =
     (Response 200 (Inr (exampleTask\<lparr>status := ''in_progress'', started_at := Some 2000,
        updated_at := 2000\<rparr>)),
      \<lparr>rows = [exampleTask\<lparr>status := ''in_progress'', started_at := Some 2000,
        updated_at := 2000\<rparr>], next_id = 2\<rparr>)" by code_simp
  have e: "status exampleTask = ''todo''" "started_at exampleTask = None"
    "completed_at exampleTask = None" by (simp_all add: exampleTask_def)
  show ?thesis
    using h u p e status_write_derived_timestamps [OF h, of 2000 "statusRequest ''in_progress''"
        "exampleTask\<lparr>status := ''in_progress'', started_at := Some 2000, updated_at := 2000\<rparr>"
        "\<lparr>rows = [exampleTask\<lparr>status := ''in_progress'', started_at := Some 2000,
        updated_at := 2000\<rparr>], next_id = 2\<rparr>"]
    by simp
qed

text \<open>
  Claim C4. A successful write that takes a task to \<open>in_progress\<close> from another status
  while its \<open>started_at\<close> is null sets \<open>started_at\<close> to the instant of the write; and after
  any further writes, none of which has \<open>todo\<close> as its target status, \<open>started_at\<close> is
  still that instant (a later return from \<open>rejected_revision\<close> to \<open>in_progress\<close> does
  not reset it).
\<close>

theorem started_at_set_once:
  assumes "findByPk i st = Some old" and "status old \<noteq> ''in_progress''"
    and "started_at old = None" and "target w = Val ''in_progress''"
    and "code (fst (handle i (now, w) st)) = 200"
    and "list_all (\<lambda>(tm, w'). target w' \<noteq> Val ''todo'') ws"
  shows "(\<exists>t. findByPk i (snd (handle i (now, w) st)) = Some t \<and> started_at t = Some now) \<and>
         (\<exists>t. findByPk i (runWrites i ws (snd (handle i (now, w) st))) = Some t \<and>
              started_at t = Some now)"
proof -
  from handle_row[OF assms(1), of now w] assms(5) obtain v where
    v: "started_at v = started_at old"
      "status v = (case target w of Val s \<Rightarrow> s | _ \<Rightarrow> status old)"
    and f: "findByPk i (snd (handle i (now, w) st)) =
              Some ((beforeUpdate (status old) now v)\<lparr>updated_at := now\<rparr>)"
    by blast
  let ?t = "(beforeUpdate (status old) now v)\<lparr>updated_at := now\<rparr>"
  from v assms(2,3,4) have s: "started_at ?t = Some now"
    by (simp add: beforeUpdate_sets_started_at)
  from runWrites_keeps_started_at[OF f s assms(6)] f s show ?thesis by blast
qed

theorem started_at_set_once_witness:
  "findByPk 1 exampleStore = Some exampleTask \<and> status exampleTask \<noteq> ''in_progress'' \<and>
   started_at exampleTask = None \<and>
   target (Patch (statusRequest ''in_progress'')) = Val ''in_progress'' \<and>
   code (fst (handle 1 (2000, Patch (statusRequest ''in_progress'')) exampleStore)) = 200 \<and>
   list_all (\<lambda>(tm, w'). target w' \<noteq> Val ''todo'')
     [(3000, Put (statusRequest ''pending_review'')),
      (4000, Patch (statusRequest ''rejected_revision'')),
      (5000, Patch (statusRequest ''in_progress''))] \<and>
   (\<exists>t. findByPk 1 (runWrites 1
       [(3000, Put (statusRequest ''pending_review'')),
        (4000, Patch (statusRequest ''rejected_revision'')),
        (5000, Patch (statusRequest ''in_progress''))]
       (snd (handle 1 (2000, Patch (statusRequest ''in_progress'')) exampleStore))) = Some t \<and>
     status t = ''in_progress'' \<and> started_at t = Some 2000)"
proof -
  have a: "findByPk 1 exampleStore = Some exampleTask" by code_simp
  have b: "status exampleTask \<noteq> ''in_progress''" by code_simp
  have c: "started_at exampleTask = None" by code_simp
  have d: "target (Patch (statusRequest ''in_progress'')) = Val ''in_progress''" by code_simp
  have e: "code (fst (handle 1 (2000, Patch (statusRequest ''in_progress'')) exampleStore)) = 200"
    by code_simp
  have f: "list_all (\<lambda>(tm, w'). target w' \<noteq> Val ''todo'')
     [(3000, Put (statusRequest ''pending_review'')),
      (4000, Patch (statusRequest ''rejected_revision'')),
      (5000, Patch (statusRequest ''in_progress''))]" by code_simp
  have g: "map_option status (findByPk 1 (runWrites 1
       [(3000, Put (statusRequest ''pending_review'')),
        (4000, Patch (statusRequest ''rejected_revision'')),
        (5000, Patch (statusRequest ''in_progress''))]
       (snd (handle 1 (2000, Patch (statusRequest ''in_progress'')) exampleStore))))
       = Some ''in_progress''" by code_simp
  from started_at_set_once [OF a b c d e f] g
  show ?thesis using a b c d e f by auto
qed

text \<open>
  Claim C1 asks that \<open>completed_at\<close> be non-null exactly when the status is \<open>approved\<close>
  after every create, update and status patch, a task created with status \<open>approved\<close>
  included. Creating a task with status \<open>approved\<close> in the empty store answers 201 and
  stores a row whose status is \<open>approved\<close> and whose \<open>completed_at\<close> is null: the create
  path runs no timestamp rule, while an update into \<open>approved\<close> sets the field
  (\<open>write_keeps_completed_iff_approved\<close>).
\<close>

theorem create_approved_completed_at_null:
  "createTask 1000 approvedRequest emptyStore =
     (Response 201 (Inr approvedTask), \<lparr>rows = [approvedTask], next_id = 2\<rparr>)
   \<and> status approvedTask = ''approved'' \<and> completed_at approvedTask = None"
  by code_simp

theorem create_approved_completed_at_null_witness:
  "fst (createTask 1000 approvedRequest emptyStore) = Response 201 (Inr approvedTask) \<and>
   findByPk 1 (snd (createTask 1000 approvedRequest emptyStore)) = Some approvedTask \<and>
   status approvedTask = ''approved'' \<and> completed_at approvedTask = None"
proof -
  have "findByPk 1 \<lparr>rows = [approvedTask], next_id = 2\<rparr> = Some approvedTask" by code_simp
  with create_approved_completed_at_null show ?thesis by simp
qed

text \<open>
  Claim C9. A successful status patch of an existing task leaves its \<open>id\<close>, \<open>title\<close>,
  \<open>description\<close>, \<open>priority\<close>, \<open>assignee\<close>, \<open>due_date\<close>, \<open>tags\<close>, \<open>estimated_hours\<close>,
  \<open>actual_hours\<close>, \<open>project_id\<close>, \<open>project_name\<close> and \<open>created_at\<close> as they were, in the
  answer and in the stored row.
\<close>

theorem patchStatus_frame:
  assumes "findByPk i st = Some old"
    and "patchStatus now i req st = (Response 200 (Inr t), st')"
  shows "findByPk i st' = Some t \<and> task_id t = task_id old \<and> title t = title old \<and>
         description t = description old \<and> priority t = priority old \<and>
         assignee t = assignee old \<and> due_date t = due_date old \<and> tags t = tags old \<and>
         estimated_hours t = estimated_hours old \<and> actual_hours t = actual_hours old \<and>
         project_id t = project_id old \<and> project_name t = project_name old \<and>
         created_at t = created_at old"
proof -
  from patchStatus_200[OF assms] obtain s where
    t: "t = (beforeUpdate (status old) now (old\<lparr>status := s\<rparr>))\<lparr>updated_at := now\<rparr>"
    and f: "findByPk i st' = Some t" by blast
  from t have "task_id t = task_id old \<and> title t = title old \<and>
         description t = description old \<and> priority t = priority old \<and>
         assignee t = assignee old \<and> due_date t = due_date old \<and> tags t = tags old \<and>
         estimated_hours t = estimated_hours old \<and> actual_hours t = actual_hours old \<and>
         project_id t = project_id old \<and> project_name t = project_name old \<and>
         created_at t = created_at old"
    by (simp add: beforeUpdate_frame)
  with f show ?thesis by blast
qed

theorem patchStatus_frame_witness:
  "findByPk 1 exampleStore = Some exampleTask \<and>
   patchStatus 5000 1 (statusRequest ''approved'') exampleStore =
     (Response 200 (Inr (exampleTask\<lparr>status := ''approved'', completed_at := Some 5000,
        updated_at := 5000\<rparr>)),
      \<lparr>rows = [exampleTask\<lparr>status := ''approved'', completed_at := Some 5000,
        updated_at := 5000\<rparr>], next_id = 2\<rparr>) \<and>
   title (exampleTask\<lparr>status := ''approved'', completed_at := Some 5000,
        updated_at := 5000\<rparr>) = title exampleTask \<and>
   assignee (exampleTask\<lparr>status := ''approved'', completed_at := Some 5000,
        updated_at := 5000\<rparr>) = assignee exampleTask"
proof -
  have h: "findByPk 1 exampleStore = Some exampleTask" by code_simp
  have p: "patchStatus 5000 1 (statusRequest ''approved'') exampleStore =
     (Response 200 (Inr (exampleTask\<lparr>status := ''approved'', completed_at := Some 5000,
        updated_at := 5000\<rparr>)),
      \<lparr>rows = [exampleTask\<lparr>status := ''approved'', completed_at := Some 5000,
        updated_at := 5000\<rparr>], next_id = 2\<rparr>)" by code_simp
  show ?thesis using h p patchStatus_frame [OF h p] by simp
qed

section \<open>The duration of a task\<close>

text \<open>
  Claim C3 asks that the \<open>duration\<close> of a returned task with both timestamps set be the
  elapsed time in days rounded to two decimal places. For a task started on 2024-01-01
  and approved exactly one day later that is 1. \<open>getDuration\<close> divides the elapsed
  milliseconds by \<open>1000 * 60 * 60 * 24 * 100\<close>, rounds, and divides by 100: both endpoints
  return 0 when the method is attached to the instance, and null when it is not. The
  list is taken under any comparison \<open>le\<close> the store orders by.
\<close>

theorem duration_of_one_day:
  "elapsedDays2dp 1704067200000 1704153600000 = 1
   \<and> getTask True 1 oneDayStore =
       Response 200 (Inr \<lparr>j_task = oneDayTask, j_duration = Some 0\<rparr>)
   \<and> getTask False 1 oneDayStore =
       Response 200 (Inr \<lparr>j_task = oneDayTask, j_duration = None\<rparr>)
   \<and> (\<exists>p. listTasks True (\<lambda>sortBy direction. Some le) emptyQuery oneDayStore =
       Response 200 (Inr \<lparr>data = [\<lparr>j_task = oneDayTask, j_duration = Some 0\<rparr>], pages = p\<rparr>))
   \<and> (\<exists>p. listTasks False (\<lambda>sortBy direction. Some le) emptyQuery oneDayStore =
       Response 200 (Inr \<lparr>data = [\<lparr>j_task = oneDayTask, j_duration = None\<rparr>], pages = p\<rparr>))"
proof -
  have d: "getDuration oneDayTask = Some 0" by code_simp
  have e: "elapsedDays2dp 1704067200000 1704153600000 = 1" by code_simp
  have g1: "getTask True 1 oneDayStore =
       Response 200 (Inr \<lparr>j_task = oneDayTask, j_duration = Some 0\<rparr>)" by code_simp
  have g2: "getTask False 1 oneDayStore =
       Response 200 (Inr \<lparr>j_task = oneDayTask, j_duration = None\<rparr>)" by code_simp
  have m: "filter (matches (buildWhere emptyQuery)) (rows oneDayStore) = [oneDayTask]"
    by (simp add: matches_def buildWhere_def emptyQuery_def oneDayStore_def)
  have l: "limitOffset (limitNum emptyQuery) (listOffset emptyQuery) [oneDayTask] = [oneDayTask]"
    by (simp add: limitOffset_def limitNum_def listOffset_def pageNum_def emptyQuery_def)
  have i: "sqlInteger (limitNum emptyQuery)" "sqlInteger (listOffset emptyQuery)"
    by (simp_all add: sqlInteger_def limitNum_def listOffset_def pageNum_def emptyQuery_def)
  have r: "findAndCountAll (Some le) (buildWhere emptyQuery) (limitNum emptyQuery)
              (listOffset emptyQuery) oneDayStore =
             Some \<lparr>f_count = 1, f_rows = [oneDayTask]\<rparr>"
    by (simp add: findAndCountAll_def i m l orderBy_def)
  show ?thesis
    using e g1 g2 by (simp add: d r listTasks_def enrich_def Let_def)
qed

theorem duration_of_one_day_witness:
  "elapsedDays2dp 1704067200000 1704153600000 = 1 \<and>
   getTask False 1 oneDayStore =
     Response 200 (Inr \<lparr>j_task = oneDayTask, j_duration = None\<rparr>) \<and>
   listTasks False (\<lambda>sortBy direction. Some newestFirst) emptyQuery oneDayStore =
     Response 200 (Inr \<lparr>data = [\<lparr>j_task = oneDayTask, j_duration = None\<rparr>],
       pages = \<lparr>total = 1, page = 1, limit = 10, totalPages = Some 1, hasNext = False,
                 hasPrev = False\<rparr>\<rparr>) \<and>
   getTask True 1 oneDayStore =
     Response 200 (Inr \<lparr>j_task = oneDayTask, j_duration = Some 0\<rparr>) \<and>
   listTasks True (\<lambda>sortBy direction. Some newestFirst) emptyQuery oneDayStore =
     Response 200 (Inr \<lparr>data = [\<lparr>j_task = oneDayTask, j_duration = Some 0\<rparr>],
       pages = \<lparr>total = 1, page = 1, limit = 10, totalPages = Some 1, hasNext = False,
                 hasPrev = False\<rparr>\<rparr>)"
proof -
  have "pages (case body (listTasks True (\<lambda>sortBy direction. Some newestFirst) emptyQuery
                  oneDayStore) of Inr l \<Rightarrow> l) =
      \<lparr>total = 1, page = 1, limit = 10, totalPages = Some 1, hasNext = False, hasPrev = False\<rparr>"
    by code_simp
  moreover have "pages (case body (listTasks False (\<lambda>sortBy direction. Some newestFirst)
                  emptyQuery oneDayStore) of Inr l \<Rightarrow> l) =
      \<lparr>total = 1, page = 1, limit = 10, totalPages = Some 1, hasNext = False, hasPrev = False\<rparr>"
    by code_simp
  ultimately show ?thesis
    using duration_of_one_day [of newestFirst] by auto
qed

section \<open>Listing\<close>

text \<open>
  Claim C5 says that for every list request \<open>totalPages = ceil(N / L)\<close>, and that a page
  beyond \<open>totalPages\<close> has no data. With \<open>limit=-1\<close> on a table of three rows the answer
  has \<open>totalPages = -3\<close>, and page 1, which is beyond it, holds all three rows: the store
  takes a negative limit for no limit. With \<open>limit=0\<close> the quotient is \<open>Infinity\<close>:
  \<open>totalPages\<close> is not a number and \<open>hasNext\<close> is true on a page without data.
\<close>

theorem negative_limit_returns_all_rows:
  "listTasks False byCreatedAt (pageQuery 1 (- 1)) threeStore =
     Response 200 (Inr
       \<lparr>data = [enrich False (taskNo 3), enrich False (taskNo 2), enrich False (taskNo 1)],
        pages = \<lparr>total = 3, page = 1, limit = - 1, totalPages = Some (- 3), hasNext = False,
                  hasPrev = False\<rparr>\<rparr>)
   \<and> \<lceil>(of_nat 3 :: rat) / of_int (- 1)\<rceil> < (1 :: int)
   \<and> listTasks False byCreatedAt (pageQuery 1 0) threeStore =
     Response 200 (Inr
       \<lparr>data = [],
        pages = \<lparr>total = 3, page = 1, limit = 0, totalPages = None, hasNext = True,
                  hasPrev = False\<rparr>\<rparr>)"
  by code_simp

text \<open>
  Claim C5, amended. For a list request that is answered 200 (the store accepts the
  query), with page \<open>P\<close> and a limit \<open>L \<ge> 1\<close> (1 and 10 when the parameters are absent)
  and \<open>N\<close> matching rows, the answer has \<open>total = N\<close>, \<open>totalPages = ceil(N / L)\<close>,
  \<open>hasNext = (P < totalPages)\<close> and \<open>hasPrev = (P > 1)\<close>; its data are the matching rows
  in the store's order from offset \<open>(P - 1) * L\<close> on, at most \<open>L\<close> of them; and a page
  beyond the last one has no data and no next page.
\<close>

theorem list_pagination:
  assumes "listTasks attached cmp q st = Response 200 (Inr \<lparr>data = d, pages = p\<rparr>)"
    and "pageNum q = P" and "limitNum q = L" and "1 \<le> L"
    and "length (filter (matches (buildWhere q)) (rows st)) = N"
  shows "pageNum (q\<lparr>q_page := None\<rparr>) = 1 \<and> limitNum (q\<lparr>q_limit := None\<rparr>) = 10 \<and>
       total p = N \<and> page p = P \<and> limit p = L \<and>
       totalPages p = Some \<lceil>(of_nat N :: rat) / of_int L\<rceil> \<and>
       hasNext p = (P < \<lceil>(of_nat N :: rat) / of_int L\<rceil>) \<and>
       hasPrev p = (1 < P) \<and>
       listOffset q = (P - 1) * L \<and>
       (\<exists>le. d = map (enrich attached)
                 (take (nat L) (drop (nat ((P - 1) * L))
                    (orderBy le (filter (matches (buildWhere q)) (rows st)))))) \<and>
       (\<lceil>(of_nat N :: rat) / of_int L\<rceil> < P \<longrightarrow> d = [] \<and> \<not> hasNext p)"
proof -
  let ?tp = "\<lceil>(of_nat N :: rat) / of_int L\<rceil>"
  let ?m = "filter (matches (buildWhere q)) (rows st)"
  have off: "listOffset q = (P - 1) * L"
    using assms(2,3) by (simp add: listOffset_def)
  from listTasks_200[OF assms(1)] obtain le where
    d: "d = map (enrich attached) (limitOffset L ((P - 1) * L) (orderBy le ?m))"
    and p: "p = \<lparr>total = N, page = P, limit = L, totalPages = Math_ceil_div N L,
                  hasNext = (case Math_ceil_div N L of Some n \<Rightarrow> P < n | None \<Rightarrow> 0 < N),
                  hasPrev = (1 < P)\<rparr>"
    unfolding off assms(2,3,5) by blast
  have L0: "L \<noteq> 0" "\<not> L < 0" using assms(4) by simp_all
  have tp: "Math_ceil_div N L = Some ?tp" using L0 by (simp add: Math_ceil_div_def)
  have d': "d = map (enrich attached) (take (nat L) (drop (nat ((P - 1) * L)) (orderBy le ?m)))"
    using d L0 by (simp add: limitOffset_def)
  have beyond: "d = [] \<and> \<not> (P < ?tp)" if "?tp < P"
  proof -
    from beyond_last_page[OF assms(4) that] have "N \<le> nat ((P - 1) * L)" by simp
    then have "drop (nat ((P - 1) * L)) (orderBy le ?m) = []"
      using assms(5) by (simp add: length_orderBy)
    with that show ?thesis by (simp add: d')
  qed
  have dflt: "pageNum (q\<lparr>q_page := None\<rparr>) = 1" "limitNum (q\<lparr>q_limit := None\<rparr>) = 10"
    by (simp_all add: pageNum_def limitNum_def)
  have fields: "total p = N" "page p = P" "limit p = L" "totalPages p = Some ?tp"
    "hasNext p = (P < ?tp)" "hasPrev p = (1 < P)"
    by (simp_all add: p tp)
  from dflt fields off d' beyond show ?thesis by blast
qed

theorem list_pagination_witness:
  "listTasks False byCreatedAt (pageQuery 3 2) threeStore =
     Response 200 (Inr \<lparr>data = [],
       pages = \<lparr>total = 3, page = 3, limit = 2, totalPages = Some 2, hasNext = False,
                 hasPrev = True\<rparr>\<rparr>) \<and>
   pageNum (pageQuery 3 2) = 3 \<and> limitNum (pageQuery 3 2) = 2 \<and> (1::int) \<le> 2 \<and>
   length (filter (matches (buildWhere (pageQuery 3 2))) (rows threeStore)) = 3 \<and>
   \<lceil>(of_nat 3 :: rat) / of_int 2\<rceil> < (3::int) \<and>
   listTasks False byCreatedAt (pageQuery 2 2) threeStore =
     Response 200 (Inr \<lparr>data = [enrich False (taskNo 1)],
       pages = \<lparr>total = 3, page = 2, limit = 2, totalPages = Some 2, hasNext = False,
                 hasPrev = True\<rparr>\<rparr>)"
proof -
  have a: "pageNum (pageQuery 3 2) = 3" by code_simp
  have b: "limitNum (pageQuery 3 2) = 2" by code_simp
  have c: "length (filter (matches (buildWhere (pageQuery 3 2))) (rows threeStore)) = 3"
    by code_simp
  have d: "\<lceil>(of_nat 3 :: rat) / of_int 2\<rceil> < (3::int)" by code_simp
  have e: "listTasks False byCreatedAt (pageQuery 3 2) threeStore =
     Response 200 (Inr \<lparr>data = [],
       pages = \<lparr>total = 3, page = 3, limit = 2, totalPages = Some 2, hasNext = False,
                 hasPrev = True\<rparr>\<rparr>)" by code_simp
  have f: "listTasks False byCreatedAt (pageQuery 2 2) threeStore =
     Response 200 (Inr \<lparr>data = [enrich False (taskNo 1)],
       pages = \<lparr>total = 3, page = 2, limit = 2, totalPages = Some 2, hasNext = False,
                 hasPrev = True\<rparr>\<rparr>)" by code_simp
  from list_pagination [OF e a b _ c]
  show ?thesis using a b c d e f by simp
qed

text \<open>
  Claim C6 says that a row is in the result exactly when, among other conditions, its
  assignee contains the given string as a substring. With \<open>assignee=_\<close> the row whose
  assignee is \<open>bob\<close> is returned, and \<open>bob\<close> does not contain \<open>_\<close>: the string is put
  between \<open>%\<close> signs and matched by \<open>LIKE\<close>, for which \<open>_\<close> stands for any character.
\<close>

theorem underscore_matches_any_assignee:
  "listTasks False byCreatedAt underscoreQuery exampleStore =
     Response 200 (Inr \<lparr>data = [enrich False exampleTask],
       pages = \<lparr>total = 1, page = 1, limit = 10, totalPages = Some 1, hasNext = False,
                 hasPrev = False\<rparr>\<rparr>)
   \<and> \<not> claimedMatch underscoreQuery exampleTask"
  by code_simp

text \<open>
  Claim C6, amended. For a list request that is answered 200 (the store accepts the
  query) and whose \<open>assignee\<close> and \<open>search\<close> strings have no \<open>%\<close> and no \<open>_\<close> in them, the
  matching rows (those counted in \<open>total\<close> and returned page by page in \<open>data\<close>) are
  exactly the rows of the table that satisfy every filter that is given and is not the
  empty string: the status, the priority and the project_id are in the given sets, the
  assignee contains the given string as a substring without regard to ASCII letter case,
  and \<open>title\<close>, \<open>description\<close> or \<open>tags\<close> contains the search string in the same way; a
  null column satisfies no filter. Every row of \<open>data\<close> is such a row, \<open>total\<close> is their
  number, and the first page holds all of them when \<open>limit\<close> is at least \<open>total\<close>.
\<close>

theorem list_filter:
  assumes "case q_assignee q of Some a \<Rightarrow> noWildcard a | None \<Rightarrow> True"
    and "case q_search q of Some x \<Rightarrow> noWildcard x | None \<Rightarrow> True"
    and "listTasks attached cmp q st = Response 200 (Inr \<lparr>data = d, pages = p\<rparr>)"
  shows "total p = length (filter (filtersHold q) (rows st)) \<and>
         j_task ` set d \<subseteq> {t \<in> set (rows st). filtersHold q t} \<and>
         (pageNum q = 1 \<and> int (total p) \<le> limitNum q \<longrightarrow>
            j_task ` set d = {t \<in> set (rows st). filtersHold q t})"
proof -
  let ?m = "filter (filtersHold q) (rows st)"
  have m: "filter (matches (buildWhere q)) (rows st) = ?m"
    by (rule filter_cong[OF refl]) (simp add: matches_filtersHold[OF assms(1,2)])
  from listTasks_200[OF assms(3)] obtain le where
    d: "d = map (enrich attached) (limitOffset (limitNum q) (listOffset q) (orderBy le ?m))"
    and p: "total p = length ?m"
    unfolding m by auto
  let ?rows = "limitOffset (limitNum q) (listOffset q) (orderBy le ?m)"
  have img: "j_task ` set d = set ?rows"
    by (simp add: d image_image enrich_def)
  have sub: "set ?rows \<subseteq> {t \<in> set (rows st). filtersHold q t}"
    using set_limitOffset[of "limitNum q" "listOffset q" "orderBy le ?m"]
    by (auto simp: set_orderBy)
  have all: "set ?rows = {t \<in> set (rows st). filtersHold q t}"
    if "pageNum q = 1 \<and> int (total p) \<le> limitNum q"
  proof -
    from that p have "limitOffset (limitNum q) (listOffset q) (orderBy le ?m) = orderBy le ?m"
      by (intro limitOffset_all) (simp_all add: listOffset_def length_orderBy)
    then show ?thesis by (auto simp: set_orderBy)
  qed
  from p sub all show ?thesis unfolding img by blast
qed

theorem list_filter_witness:
  "noWildcard ''BO'' \<and> noWildcard ''SPEC'' \<and>
   q_assignee upperCaseQuery = Some ''BO'' \<and> q_search upperCaseQuery = Some ''SPEC'' \<and>
   pageNum upperCaseQuery = 1 \<and>
   listTasks False byCreatedAt upperCaseQuery mixedStore =
     Response 200 (Inr \<lparr>data = [enrich False exampleTask],
       pages = \<lparr>total = 1, page = 1, limit = 10, totalPages = Some 1, hasNext = False,
                 hasPrev = False\<rparr>\<rparr>) \<and>
   {t \<in> set (rows mixedStore). filtersHold upperCaseQuery t} = {exampleTask}"
proof -
  have a: "q_assignee upperCaseQuery = Some ''BO''" "q_search upperCaseQuery = Some ''SPEC''"
    by (simp_all add: upperCaseQuery_def)
  have n: "noWildcard ''BO''" "noWildcard ''SPEC''" by (simp_all add: noWildcard_def)
  have h1: "case q_assignee upperCaseQuery of Some a \<Rightarrow> noWildcard a | None \<Rightarrow> True"
    by (simp add: a n)
  have h2: "case q_search upperCaseQuery of Some x \<Rightarrow> noWildcard x | None \<Rightarrow> True"
    by (simp add: a n)
  have pg: "pageNum upperCaseQuery = 1" "limitNum upperCaseQuery = 10" by code_simp+
  have r: "listTasks False byCreatedAt upperCaseQuery mixedStore =
     Response 200 (Inr \<lparr>data = [enrich False exampleTask],
       pages = \<lparr>total = 1, page = 1, limit = 10, totalPages = Some 1, hasNext = False,
                 hasPrev = False\<rparr>\<rparr>)" by code_simp
  from list_filter [OF h1 h2 r]
  show ?thesis using a n pg r by (auto simp: enrich_def)
qed

section \<open>Creating and validating\<close>




text \<open>
  Claim C10. The create handler does not read \<open>id\<close>, \<open>started_at\<close>, \<open>completed_at\<close> or
  \<open>actual_hours\<close> of the request: whatever they hold the outcome is the same, and a task
  that is created takes the next key of the sequence and has \<open>started_at\<close>,
  \<open>completed_at\<close> and \<open>actual_hours\<close> null.
\<close>

theorem create_ignores_derived_fields:
  "createTask now (req\<lparr>p_id := a, p_started_at := b, p_completed_at := c, p_actual_hours := d\<rparr>) st
     = createTask now req st
   \<and> (createTask now req st = (Response 201 (Inr t), st') \<longrightarrow>
        task_id t = next_id st \<and> started_at t = None \<and> completed_at t = None \<and>
        actual_hours t = None)"
proof (rule conjI, rule createTask_ignores, rule impI)
  assume r: "createTask now req st = (Response 201 (Inr t), st')"
  have "\<not> (p_title req = Undefined \<or> rawTitleInvalid (p_title req) \<or>
         suppliedInvalid validPriorities (p_priority req) \<or>
         suppliedInvalid validStatuses (p_status req))"
  proof
    assume "p_title req = Undefined \<or> rawTitleInvalid (p_title req) \<or>
         suppliedInvalid validPriorities (p_priority req) \<or>
         suppliedInvalid validStatuses (p_status req)"
    then have "code (fst (createTask now req st)) = 400"
      by (subst createTask_result) simp
    with r show False by simp
  qed
  then have "fst (createTask now req st) =
      Response 201 (Inr (build now (next_id st) (trim (case p_title req of Val s \<Rightarrow> s))
                (case withDefault ''medium'' (p_priority req) of Val v \<Rightarrow> v)
                (case withDefault ''todo'' (p_status req) of Val v \<Rightarrow> v) (taskData req)))"
    by (subst createTask_result) simp
  with r have "t = build now (next_id st) (trim (case p_title req of Val s \<Rightarrow> s))
                (case withDefault ''medium'' (p_priority req) of Val v \<Rightarrow> v)
                (case withDefault ''todo'' (p_status req) of Val v \<Rightarrow> v) (taskData req)"
    by simp
  then show "task_id t = next_id st \<and> started_at t = None \<and> completed_at t = None \<and>
        actual_hours t = None"
    by (simp add: build_fields taskData_fields)
qed

theorem create_ignores_derived_fields_witness:
  "createTask 1000 fullRequest emptyStore =
     (Response 201 (Inr fullTask), \<lparr>rows = [fullTask], next_id = 2\<rparr>) \<and>
   createTask 1000 (fullRequest\<lparr>p_id := Undefined, p_started_at := Null,
       p_completed_at := Undefined, p_actual_hours := Val 7\<rparr>) emptyStore =
     (Response 201 (Inr fullTask), \<lparr>rows = [fullTask], next_id = 2\<rparr>) \<and>
   p_id fullRequest = Val 99 \<and> p_started_at fullRequest = Val 5 \<and>
   p_completed_at fullRequest = Val 6 \<and> p_actual_hours fullRequest = Val 4 \<and>
   task_id fullTask = next_id emptyStore \<and> started_at fullTask = None \<and>
   completed_at fullTask = None \<and> actual_hours fullTask = None"
proof -
  have r: "createTask 1000 fullRequest emptyStore =
     (Response 201 (Inr fullTask), \<lparr>rows = [fullTask], next_id = 2\<rparr>)" by code_simp
  have p: "p_id fullRequest = Val 99" "p_started_at fullRequest = Val 5"
    "p_completed_at fullRequest = Val 6" "p_actual_hours fullRequest = Val 4"
    by (simp_all add: fullRequest_def)
  from create_ignores_derived_fields [where now = 1000 and req = fullRequest
      and a = Undefined and b = Null and c = Undefined and d = "Val 7" and st = emptyStore
      and t = fullTask and st' = "\<lparr>rows = [fullTask], next_id = 2\<rparr>"]
  show ?thesis using r p by simp
qed




end
